theory Spec2Isabelle
  imports Complex_Main "HOL-Library.Sublist"
begin

section \<open>The test runner of cavy (src/TestRunner.js)\<close>

text \<open>
  The runner walks the test suites, runs every selected test case through
  \<open>runTest\<close> and hands a report to the reporter. Everything the JavaScript does to
  its surroundings is explicit here:
  \<^item> the application under test, the suite objects and whatever else the hooks, the
    test bodies and the reporter can touch form a world of an arbitrary type \<open>'w\<close>;
    an operation supplied from outside is a function from the world to an outcome and
    the next world;
  \<^item> every call the runner makes to the outside (the component, a hook, a test body,
    the reporter, the console) is appended to a trace, in the order of the calls;
  \<^item> an exception is a value: a computation ends in \<open>Normal s\<close> or in
    \<open>Raised e s\<close>, with the state reached when \<open>e\<close> was raised;
  \<^item> \<open>new Date()\<close> takes the next reading of a clock, a sequence of milliseconds;
    a difference of dates divided by 1000 is kept as an exact fraction (the sign and
    the zero of the JavaScript number are those of the fraction).

  \<open>run\<close> and \<open>pause\<close> (the start delay, a timer) are not part of the model:
  \<open>run\<close> starts \<open>runTestSuites\<close> and does not wait for it.
\<close>

subsection \<open>Values\<close>

type_synonym ref = nat
type_synonym millis = int

text \<open>
  What a JavaScript \<open>throw\<close> (or a rejected promise) carries, as far as the runner
  looks at it: the runner only reads \<open>e.message\<close>. \<open>Nullish\<close> is \<open>null\<close> or
  \<open>undefined\<close>; \<open>NoMessage\<close> is any other value without a \<open>message\<close> property
  (a thrown string, say); \<open>JSError name msg\<close> is an error object of class \<open>name\<close>
  whose message is the string \<open>msg\<close>.
\<close>

datatype thrown = Nullish | NoMessage | JSError string string

definition TypeError :: "string \<Rightarrow> thrown" where
  "TypeError what = JSError ''TypeError'' what"

definition ReferenceError :: "string \<Rightarrow> thrown" where
  "ReferenceError what = JSError ''ReferenceError'' what"

text \<open>Reading \<open>e.message\<close>: a TypeError on \<open>null\<close> and \<open>undefined\<close>.\<close>

fun get_message :: "thrown \<Rightarrow> thrown + string option" where
  "get_message Nullish = Inl (TypeError ''cannot read property message of a nullish value'')"
| "get_message NoMessage = Inr None"
| "get_message (JSError n m) = Inr (Some m)"

text \<open>A value inside a template literal: \<open>undefined\<close> prints as its name.\<close>

fun template_string :: "string option \<Rightarrow> string" where
  "template_string None = ''undefined''"
| "template_string (Some m) = m"

text \<open>
  A call of a function supplied from outside returns, throws while it runs, or returns
  a promise that rejects. \<open>await\<close> turns a rejection into a raised error; a call
  that is not awaited never sees it.
\<close>

datatype outcome = Returns | Throws thrown | Rejects thrown

type_synonym 'w action = "'w \<Rightarrow> outcome \<times> 'w"

subsection \<open>Test cases, suites, results and reports\<close>

text \<open>
  A test case carries its labels, an optional tag and the function \<open>f\<close>; a suite
  (a TestScope) has its cases and an optional \<open>beforeEach\<close>. Hooks and bodies are
  called with the suite as \<open>this\<close>: they take the reference \<open>self\<close> of the suite
  object. The suites are not changed while the runner iterates over them.
\<close>

record 'w test_case =
  describeLabel :: string
  label :: string
  tag :: "string option"
  tc_f :: "ref \<Rightarrow> 'w action"

record 'w suite =
  self :: ref
  testCases :: "'w test_case list"
  beforeEach :: "(ref \<Rightarrow> 'w action) option"

record result =
  res_describeLabel :: string
  description :: string
  message :: string
  errorMessage :: "string option"
  passed :: bool
  time :: rat

record full_results =
  fr_time :: rat
  timestamp :: millis
  fr_testCases :: "result list"

record report =
  rep_results :: "result list"
  fullResults :: full_results
  rep_errorCount :: nat
  duration :: rat

text \<open>
  What the reporter's \<open>send\<close> and \<open>onFinish\<close> are called with: the two-field object
  \<open>{message, passed}\<close> after a case, or the whole report.
\<close>

datatype payload = Fragment string bool | FullReport report

text \<open>
  The reporter is whatever value was passed to the constructor: a function, \<open>null\<close> or
  \<open>undefined\<close>, or some other value with its \<open>type\<close> property (\<open>None\<close> when it is
  not a string) and the methods \<open>onFinish\<close> and \<open>send\<close>, where it has them.
\<close>

record 'w reporter_obj =
  rtype :: "string option"
  onFinish :: "(payload \<Rightarrow> 'w action) option"
  send :: "(payload \<Rightarrow> 'w action) option"

datatype 'w reporter =
    RFunction "report \<Rightarrow> 'w action"
  | RNullish
  | RObject "'w reporter_obj"

subsection \<open>The runner, its state and the trace\<close>

datatype 'w event =
    ConsoleLog string
  | ConsoleWarn string
  | ClearAsync
  | BeforeEach ref
  | ReRender
  | CallF ref "'w test_case"
  | CallReporter report
  | OnFinish report
  | Send payload

record 'w component =
  clearAsync :: "'w action"
  reRender :: "'w action"

text \<open>
  The constructor's arguments (\<open>startDelay\<close> is only read by \<open>run\<close>), and the
  surroundings the code reads: the clock, how a date and a number print, and whether
  the global object has a property named \<open>message\<close>.
  \<open>shouldSendReport\<close> is \<open>None\<close> for \<open>undefined\<close> and \<open>null\<close>, which
  \<open>!= undefined\<close> does not tell apart; \<open>tag_filter\<close> is \<open>None\<close> for a
  \<open>null\<close> or \<open>undefined\<close> filter, else the array of strings.
\<close>

record 'w runner =
  component :: "'w component"
  testSuites :: "'w suite list"
  reporter :: "'w reporter"
  shouldSendReport :: "bool option"
  tag_filter :: "string list option"
  clock :: "nat \<Rightarrow> millis"
  date_string :: "millis \<Rightarrow> string"
  number_string :: "rat \<Rightarrow> string"
  global_message :: bool

record 'w state =
  results :: "result list"
  errorCount :: nat
  trace :: "'w event list"
  world :: 'w
  ticks :: nat

definition initial :: "'w \<Rightarrow> 'w state" where
  "initial w = \<lparr>results = [], errorCount = 0, trace = [], world = w, ticks = 0\<rparr>"

datatype 'w completion = Normal "'w state" | Raised thrown "'w state"

fun state_of :: "'w completion \<Rightarrow> 'w state" where
  "state_of (Normal s) = s"
| "state_of (Raised e s) = s"

fun is_Raised :: "'w completion \<Rightarrow> bool" where
  "is_Raised (Normal s) = False"
| "is_Raised (Raised e s) = True"

text \<open>Sequencing: what follows a statement runs only when the statement completes.\<close>

definition then_do :: "'w completion \<Rightarrow> ('w state \<Rightarrow> 'w completion) \<Rightarrow> 'w completion" where
  "then_do c k = (case c of Normal s \<Rightarrow> k s | Raised e s \<Rightarrow> Raised e s)"

definition new_Date :: "'w runner \<Rightarrow> 'w state \<Rightarrow> millis \<times> 'w state" where
  "new_Date R s = (clock R (ticks s), s\<lparr>ticks := Suc (ticks s)\<rparr>)"

definition emit :: "'w event \<Rightarrow> 'w state \<Rightarrow> 'w state" where
  "emit ev s = s\<lparr>trace := trace s @ [ev]\<rparr>"

definition push_result :: "result \<Rightarrow> 'w state \<Rightarrow> 'w state" where
  "push_result r s = s\<lparr>results := results s @ [r]\<rparr>"

text \<open>\<open>await g(...)\<close>: the call is recorded, and a throw or a rejection is raised.\<close>

definition call_await :: "'w event \<Rightarrow> 'w action \<Rightarrow> 'w state \<Rightarrow> 'w completion" where
  "call_await ev g s =
     (let s1 = emit ev s;
          (out, w) = g (world s1);
          s2 = s1\<lparr>world := w\<rparr>
      in case out of
           Returns \<Rightarrow> Normal s2
         | Throws e \<Rightarrow> Raised e s2
         | Rejects e \<Rightarrow> Raised e s2)"

text \<open>\<open>g(...)\<close> without \<open>await\<close>: a rejection of the returned promise is not seen.\<close>

definition call_sync :: "'w event \<Rightarrow> 'w action \<Rightarrow> 'w state \<Rightarrow> 'w completion" where
  "call_sync ev g s =
     (let s1 = emit ev s;
          (out, w) = g (world s1);
          s2 = s1\<lparr>world := w\<rparr>
      in case out of
           Returns \<Rightarrow> Normal s2
         | Throws e \<Rightarrow> Raised e s2
         | Rejects e \<Rightarrow> Normal s2)"

subsection \<open>runTest\<close>

definition success_glyph :: string where
  "success_glyph = [CHR 0xE2, CHR 0x9C, CHR 0x85]"

definition failure_glyph :: string where
  "failure_glyph = [CHR 0xE2, CHR 0x9D, CHR 0x8C]"

text \<open>
  The check made after a result is pushed (lines 141-145 and 163-167):
  \<open>!(this.reporter instanceof Function) && this.reporter.type == 'realtime'\<close>, then
  \<open>this.reporter.send(result)\<close>, not awaited.
\<close>

definition realtime_send :: "'w runner \<Rightarrow> string \<Rightarrow> bool \<Rightarrow> 'w state \<Rightarrow> 'w completion" where
  "realtime_send R msg ok s =
     (case reporter R of
        RFunction g \<Rightarrow> Normal s
      | RNullish \<Rightarrow> Raised (TypeError ''cannot read property type of a nullish value'') s
      | RObject obj \<Rightarrow>
          if rtype obj = Some ''realtime'' then
            (case send obj of
               None \<Rightarrow> Raised (TypeError ''this.reporter.send is not a function'') s
             | Some g \<Rightarrow> call_sync (Send (Fragment msg ok)) (g (Fragment msg ok)) s)
          else Normal s)"

text \<open>Line 122: \<open>`${describeLabel}: ${label}`\<close>.\<close>

definition describe :: "'w test_case \<Rightarrow> string" where
  "describe test = describeLabel test @ '': '' @ label test"

text \<open>The \<open>try\<close> block (lines 126-145).\<close>

definition try_block ::
  "'w runner \<Rightarrow> 'w suite \<Rightarrow> 'w test_case \<Rightarrow> millis \<Rightarrow> 'w state \<Rightarrow> 'w completion" where
  "try_block R scope test start s =
     then_do (call_await (CallF (self scope) test) (tc_f test (self scope)) s) (\<lambda>s1.
       let (stop, s2) = new_Date R s1;
           tm = (of_int (stop - start) :: rat) / 1000;
           descr = describe test;
           successMsg = descr @ ''  '' @ success_glyph;
           s3 = emit (ConsoleLog successMsg) s2;
           s4 = push_result \<lparr>res_describeLabel = describeLabel test, description = descr,
                  message = successMsg, errorMessage = None, passed = True, time = tm\<rparr> s3
       in realtime_send R successMsg True s4)"

text \<open>The \<open>catch\<close> block (lines 147-171).\<close>

definition catch_block ::
  "'w runner \<Rightarrow> 'w test_case \<Rightarrow> millis \<Rightarrow> thrown \<Rightarrow> 'w state \<Rightarrow> 'w completion" where
  "catch_block R test start e s =
     (let (stop, s1) = new_Date R s;
          tm = (of_int (stop - start) :: rat) / 1000;
          descr = describe test
      in case get_message e of
           Inl err \<Rightarrow> Raised err s1
         | Inr m \<Rightarrow>
             let fullErrorMessage =
                   descr @ ''  '' @ failure_glyph @ [CHR 0x0A] @ ''   '' @ template_string m;
                 s2 = emit (ConsoleWarn fullErrorMessage) s1;
                 s3 = push_result \<lparr>res_describeLabel = describeLabel test, description = descr,
                        message = fullErrorMessage, errorMessage = m, passed = False,
                        time = tm\<rparr> s2
             in then_do (realtime_send R fullErrorMessage False s3) (\<lambda>s4.
                  Normal (s4\<lparr>errorCount := errorCount s4 + 1\<rparr>)))"

text \<open>
  What \<open>runTest\<close> does before the \<open>try\<close> (lines 115-119): the awaited
  \<open>clearAsync\<close>, the awaited \<open>beforeEach\<close> where the suite has one, called on
  the suite, and \<open>reRender\<close>, which is not awaited.
\<close>

definition before_try :: "'w runner \<Rightarrow> 'w suite \<Rightarrow> 'w state \<Rightarrow> 'w completion" where
  "before_try R scope s1 =
     then_do (call_await ClearAsync (clearAsync (component R)) s1) (\<lambda>s2.
     then_do (case beforeEach scope of
                None \<Rightarrow> Normal s2
              | Some hook \<Rightarrow> call_await (BeforeEach (self scope)) (hook (self scope)) s2) (\<lambda>s3.
     call_sync ReRender (reRender (component R)) s3))"

text \<open>
  \<open>runTest\<close> (lines 112-172). The state reset, the hook and the re-render come before
  the \<open>try\<close>; only the call of \<open>f\<close> and what follows it are inside.
\<close>

definition runTest :: "'w runner \<Rightarrow> 'w suite \<Rightarrow> 'w test_case \<Rightarrow> 'w state \<Rightarrow> 'w completion" where
  "runTest R scope test s0 =
     (let (start, s1) = new_Date R s0 in
      then_do (before_try R scope s1) (\<lambda>s4.
        case try_block R scope test start s4 of
          Normal s5 \<Rightarrow> Normal s5
        | Raised e s5 \<Rightarrow> catch_block R test start e s5))"

subsection \<open>runTestSuites\<close>

text \<open>\<open>Array.prototype.includes\<close> on an array of strings: \<open>undefined\<close> is no element.\<close>

definition array_includes :: "string list \<Rightarrow> string option \<Rightarrow> bool" where
  "array_includes arr v = (case v of None \<Rightarrow> False | Some t \<Rightarrow> t \<in> set arr)"

text \<open>
  Line 52: \<open>!this.filter || (this.filter && this.filter.includes(tag))\<close>. An array,
  also the empty one, is truthy.
\<close>

definition should_run :: "string list option \<Rightarrow> string option \<Rightarrow> bool" where
  "should_run flt tg = (case flt of None \<Rightarrow> True | Some arr \<Rightarrow> array_includes arr tg)"

text \<open>The inner loop (lines 46-55) over the cases of suite \<open>i\<close>, from index \<open>j\<close>.\<close>

function loop_j :: "'w runner \<Rightarrow> nat \<Rightarrow> nat \<Rightarrow> 'w state \<Rightarrow> 'w completion" where
  "loop_j R i j s =
     (if j < length (testCases (testSuites R ! i)) then
        (let scope = testSuites R ! i;
             tg = tag (testCases scope ! j)
         in case (if should_run (tag_filter R) tg
                  then runTest R scope (testCases scope ! j) s
                  else Normal s) of
              Normal s1 \<Rightarrow> loop_j R i (Suc j) s1
            | Raised e s1 \<Rightarrow> Raised e s1)
      else Normal s)"
  by pat_completeness auto
termination
  by (relation "measure (\<lambda>(R, i, j, s). length (testCases (testSuites R ! i)) - j)") auto

text \<open>The outer loop (lines 44-56) over the suites, from index \<open>i\<close>.\<close>

function loop_i :: "'w runner \<Rightarrow> nat \<Rightarrow> 'w state \<Rightarrow> 'w completion" where
  "loop_i R i s =
     (if i < length (testSuites R) then
        (case loop_j R i 0 s of
           Normal s1 \<Rightarrow> loop_i R (Suc i) s1
         | Raised e s1 \<Rightarrow> Raised e s1)
      else Normal s)"
  by pat_completeness auto
termination
  by (relation "measure (\<lambda>(R, i, s). length (testSuites R) - i)") auto

definition deprecation_message :: string where
  "deprecation_message =
     ''Deprecation warning: using the `sendReport` prop is '' @
     ''deprecated. By default, Cavy now checks whether the '' @
     ''cavy-cli server is running and sends a report if a '' @
     ''connection is detected.''"

definition invalid_reporter_message :: string where
  "invalid_reporter_message =
     ''Could not find a valid reporter. For more '' @
     ''information on custom reporters, see the documentation '' @
     ''here: https://cavy.app/docs/guides/writing-custom-reporters''"

text \<open>Lines 74-86.\<close>

definition make_report :: "'w state \<Rightarrow> millis \<Rightarrow> rat \<Rightarrow> report" where
  "make_report s start dur =
     \<lparr>rep_results = results s,
      fullResults = \<lparr>fr_time = dur, timestamp = start, fr_testCases = results s\<rparr>,
      rep_errorCount = errorCount s,
      duration = dur\<rparr>"

text \<open>
  Lines 89-100. In the last branch \<open>message\<close> is assigned without a declaration in
  scope (the \<open>const message\<close> of line 65 belongs to the block of the \<open>if\<close> there).
  The file is a module and the method is in a class body, so the code is strict: the
  assignment raises a ReferenceError unless the global object has such a property.
\<close>

definition dispatch :: "'w runner \<Rightarrow> report \<Rightarrow> 'w state \<Rightarrow> 'w completion" where
  "dispatch R rep s =
     (case reporter R of
        RFunction g \<Rightarrow> call_await (CallReporter rep) (g rep) s
      | RNullish \<Rightarrow> Raised (TypeError ''cannot read property type of a nullish value'') s
      | RObject obj \<Rightarrow>
          if rtype obj = Some ''realtime'' then
            (case onFinish obj of
               None \<Rightarrow> Raised (TypeError ''this.reporter.onFinish is not a function'') s
             | Some g \<Rightarrow> call_await (OnFinish rep) (g (FullReport rep)) s)
          else if rtype obj = Some ''deferred'' then
            (case send obj of
               None \<Rightarrow> Raised (TypeError ''this.reporter.send is not a function'') s
             | Some g \<Rightarrow> call_await (Send (FullReport rep)) (g (FullReport rep)) s)
          else if global_message R then
            Normal (emit (ConsoleLog invalid_reporter_message) s)
          else Raised (ReferenceError ''message is not defined'') s)"

text \<open>
  What \<open>runTestSuites\<close> does once the loops are done (lines 58-100), with the
  \<open>start\<close> it took at line 40.
\<close>

definition after_loop :: "'w runner \<Rightarrow> millis \<Rightarrow> 'w state \<Rightarrow> 'w completion" where
  "after_loop R start s3 =
     (let (stop, s4) = new_Date R s3;
          dur = (of_int (stop - start) :: rat) / 1000;
          s5 = emit (ConsoleLog (''Cavy test suite stopped at '' @ date_string R stop @
                 '', duration: '' @ number_string R dur @ '' seconds.'')) s4
      in case shouldSendReport R of
           None \<Rightarrow> dispatch R (make_report s5 start dur) s5
         | Some flag \<Rightarrow>
             let s6 = emit (ConsoleWarn deprecation_message) s5
             in if \<not> flag then Normal s6
                else dispatch R (make_report s6 start dur) s6)"

text \<open>\<open>runTestSuites\<close> (lines 39-101).\<close>

definition runTestSuites :: "'w runner \<Rightarrow> 'w state \<Rightarrow> 'w completion" where
  "runTestSuites R s0 =
     (let (start, s1) = new_Date R s0;
          s2 = emit (ConsoleLog (''Cavy test suite started at '' @ date_string R start @ ''.'')) s1
      in then_do (loop_i R 0 s2) (after_loop R start))"

subsection \<open>Reading a run\<close>

text \<open>
  The cases the two loops select, in the order of the loops, and the run of
  \<open>runTest\<close> over a list of cases, stopping at the first error that escapes.
\<close>

definition selected_cases ::
  "'w runner \<Rightarrow> 'w suite \<Rightarrow> 'w test_case list \<Rightarrow> ('w suite \<times> 'w test_case) list" where
  "selected_cases R sc tcs =
     map (Pair sc) (filter (\<lambda>tc. should_run (tag_filter R) (tag tc)) tcs)"

definition selected :: "'w runner \<Rightarrow> ('w suite \<times> 'w test_case) list" where
  "selected R = concat (map (\<lambda>sc. selected_cases R sc (testCases sc)) (testSuites R))"

fun run_list :: "'w runner \<Rightarrow> ('w suite \<times> 'w test_case) list \<Rightarrow> 'w state \<Rightarrow> 'w completion" where
  "run_list R [] s = Normal s"
| "run_list R (p # ps) s =
     (case runTest R (fst p) (snd p) s of
        Normal s1 \<Rightarrow> run_list R ps s1
      | Raised e s1 \<Rightarrow> Raised e s1)"

text \<open>The state in which the loops start: line 40 has read the clock, line 41 has logged.\<close>

definition start_state :: "'w runner \<Rightarrow> 'w state \<Rightarrow> 'w state" where
  "start_state R s =
     s\<lparr>ticks := Suc (ticks s),
       trace := trace s @
         [ConsoleLog (''Cavy test suite started at '' @ date_string R (clock R (ticks s)) @ ''.'')]\<rparr>"

text \<open>The test bodies called, with the suite each was called on, in order.\<close>

fun call_of :: "'w event \<Rightarrow> (ref \<times> 'w test_case) list" where
  "call_of (CallF r tc) = [(r, tc)]"
| "call_of ev = []"

definition calls :: "'w event list \<Rightarrow> (ref \<times> 'w test_case) list" where
  "calls tr = concat (map call_of tr)"

text \<open>What the reporter's \<open>send\<close> was called with, in order.\<close>

fun send_of :: "'w event \<Rightarrow> payload list" where
  "send_of (Send p) = [p]"
| "send_of ev = []"

definition sends :: "'w event list \<Rightarrow> payload list" where
  "sends tr = concat (map send_of tr)"

text \<open>The reporter is an object whose \<open>type\<close> is \<open>'realtime'\<close>.\<close>

definition is_realtime :: "'w runner \<Rightarrow> bool" where
  "is_realtime R =
     (case reporter R of RObject obj \<Rightarrow> rtype obj = Some ''realtime'' | _ \<Rightarrow> False)"

definition realtime_events :: "'w runner \<Rightarrow> string \<Rightarrow> bool \<Rightarrow> 'w event list" where
  "realtime_events R msg ok = (if is_realtime R then [Send (Fragment msg ok)] else [])"

text \<open>The object \<open>{message, passed}\<close> that goes with a result.\<close>

definition fragment_of :: "result \<Rightarrow> payload" where
  "fragment_of r = Fragment (message r) (passed r)"

text \<open>The calls that hand a report to the reporter.\<close>

fun is_delivery :: "'w event \<Rightarrow> bool" where
  "is_delivery (CallReporter rep) = True"
| "is_delivery (OnFinish rep) = True"
| "is_delivery (Send (FullReport rep)) = True"
| "is_delivery ev = False"

definition deliveries :: "'w event list \<Rightarrow> 'w event list" where
  "deliveries tr = filter is_delivery tr"

text \<open>The calls of the lifecycle of a case.\<close>

fun is_lifecycle :: "'w event \<Rightarrow> bool" where
  "is_lifecycle ClearAsync = True"
| "is_lifecycle (BeforeEach r) = True"
| "is_lifecycle ReRender = True"
| "is_lifecycle (CallF r tc) = True"
| "is_lifecycle ev = False"

definition lifecycle :: "'w event list \<Rightarrow> 'w event list" where
  "lifecycle tr = filter is_lifecycle tr"

definition expected_lifecycle :: "'w suite \<Rightarrow> 'w test_case \<Rightarrow> 'w event list" where
  "expected_lifecycle scope test =
     [ClearAsync] @
     (case beforeEach scope of None \<Rightarrow> [] | Some hook \<Rightarrow> [BeforeEach (self scope)]) @
     [ReRender, CallF (self scope) test]"

text \<open>The failure counter agrees with the results.\<close>

definition consistent :: "'w state \<Rightarrow> bool" where
  "consistent s = (errorCount s = length (filter (\<lambda>r. \<not> passed r) (results s)))"

text \<open>
  The reporter is there, and where it is of the realtime kind it has a \<open>send\<close> that
  never throws while it runs (its promise may still reject).
\<close>

definition sends_quietly :: "'w runner \<Rightarrow> bool" where
  "sends_quietly R =
     (case reporter R of
        RFunction g \<Rightarrow> True
      | RNullish \<Rightarrow> False
      | RObject obj \<Rightarrow>
          rtype obj = Some ''realtime'' \<longrightarrow>
            (case send obj of
               None \<Rightarrow> False
             | Some g \<Rightarrow> \<forall>p w e. fst (g p w) \<noteq> Throws e))"

text \<open>
  The lifecycle in the words of its description, on the world alone: the reset and the
  hook must return (they are awaited, so a rejection counts), the re-render must not
  throw (it is not awaited); each step works on the world the step before has left, and
  the hook is applied to the suite.
\<close>

definition world_after_reset :: "'w runner \<Rightarrow> 'w \<Rightarrow> 'w" where
  "world_after_reset R w = snd (clearAsync (component R) w)"

definition world_after_hook :: "'w runner \<Rightarrow> 'w suite \<Rightarrow> 'w \<Rightarrow> 'w" where
  "world_after_hook R scope w =
     (case beforeEach scope of
        None \<Rightarrow> world_after_reset R w
      | Some hook \<Rightarrow> snd (hook (self scope) (world_after_reset R w)))"

definition world_before_body :: "'w runner \<Rightarrow> 'w suite \<Rightarrow> 'w \<Rightarrow> 'w" where
  "world_before_body R scope w = snd (reRender (component R) (world_after_hook R scope w))"

definition steps_complete :: "'w runner \<Rightarrow> 'w suite \<Rightarrow> 'w \<Rightarrow> bool" where
  "steps_complete R scope w =
     (fst (clearAsync (component R) w) = Returns \<and>
      (case beforeEach scope of
         None \<Rightarrow> True
       | Some hook \<Rightarrow> fst (hook (self scope) (world_after_reset R w)) = Returns) \<and>
      (case fst (reRender (component R) (world_after_hook R scope w)) of
         Throws e \<Rightarrow> False
       | _ \<Rightarrow> True))"

subsection \<open>Example runs\<close>

text \<open>
  A component whose operations return, a callback that returns, test cases that pass
  and that throw an Error, and a runner with a clock that advances by a second at every
  reading.
\<close>

definition quiet_component :: "'w component" where
  "quiet_component = \<lparr>clearAsync = (\<lambda>w. (Returns, w)), reRender = (\<lambda>w. (Returns, w))\<rparr>"

definition quiet_callback :: "'w reporter" where
  "quiet_callback = RFunction (\<lambda>rep w. (Returns, w))"

definition passing_case :: "string \<Rightarrow> string option \<Rightarrow> 'w test_case" where
  "passing_case l tg =
     \<lparr>describeLabel = ''suite'', label = l, tag = tg, tc_f = (\<lambda>r w. (Returns, w))\<rparr>"

definition failing_case :: "string \<Rightarrow> string option \<Rightarrow> 'w test_case" where
  "failing_case l tg =
     \<lparr>describeLabel = ''suite'', label = l, tag = tg,
      tc_f = (\<lambda>r w. (Throws (JSError ''Error'' ''boom''), w))\<rparr>"

definition example_runner ::
  "'w component \<Rightarrow> 'w suite list \<Rightarrow> 'w reporter \<Rightarrow> bool option \<Rightarrow> string list option \<Rightarrow> 'w runner" where
  "example_runner cmp suites rep flag flt =
     \<lparr>component = cmp, testSuites = suites, reporter = rep, shouldSendReport = flag,
      tag_filter = flt, clock = (\<lambda>n. 1000 * int n), date_string = (\<lambda>t. ''now''),
      number_string = (\<lambda>q. ''some''), global_message = False\<rparr>"

text \<open>One passing case and no reporter.\<close>

definition nullish_runner :: "unit runner" where
  "nullish_runner =
     example_runner quiet_component
       [\<lparr>self = 0, testCases = [passing_case ''a'' None], beforeEach = None\<rparr>]
       RNullish None None"

text \<open>No suites, and a reporter object \<open>{}\<close>: no \<open>type\<close>, no methods.\<close>

definition shapeless_runner :: "unit runner" where
  "shapeless_runner =
     example_runner quiet_component []
       (RObject \<lparr>rtype = None, onFinish = None, send = None\<rparr>) None None"

text \<open>A suite with a hook and one passing case, reported to a callback.\<close>

definition hook_suite :: "unit suite" where
  "hook_suite = \<lparr>self = 7, testCases = [passing_case ''a'' None],
                 beforeEach = Some (\<lambda>r w. (Returns, w))\<rparr>"

definition callback_runner :: "unit runner" where
  "callback_runner =
     example_runner quiet_component [hook_suite] quiet_callback None None"

text \<open>A suite whose hook throws, with two passing cases.\<close>

definition broken_hook_suite :: "unit suite" where
  "broken_hook_suite =
     \<lparr>self = 0, testCases = [passing_case ''a'' None, passing_case ''b'' None],
      beforeEach = Some (\<lambda>r w. (Throws (JSError ''Error'' ''setup failed''), w))\<rparr>"

definition broken_hook_runner :: "unit runner" where
  "broken_hook_runner =
     example_runner quiet_component [broken_hook_suite]
       quiet_callback None None"

text \<open>A suite with one failing case, reported to a callback.\<close>

definition failing_suite :: "unit suite" where
  "failing_suite = \<lparr>self = 0, testCases = [failing_case ''a'' None], beforeEach = None\<rparr>"

definition failing_runner :: "unit runner" where
  "failing_runner =
     example_runner quiet_component [failing_suite] quiet_callback None None"

text \<open>A realtime reporter whose methods return, and one whose \<open>send\<close> throws.\<close>

definition realtime_reporter :: "unit reporter" where
  "realtime_reporter =
     RObject \<lparr>rtype = Some ''realtime'', onFinish = Some (\<lambda>p w. (Returns, w)),
              send = Some (\<lambda>p w. (Returns, w))\<rparr>"

definition throwing_reporter :: "unit reporter" where
  "throwing_reporter =
     RObject \<lparr>rtype = Some ''realtime'', onFinish = Some (\<lambda>p w. (Returns, w)),
              send = Some (\<lambda>p w. (Throws (JSError ''Error'' ''not connected''), w))\<rparr>"

text \<open>One passing case, a realtime reporter and \<open>sendReport\<close> set to \<open>false\<close>.\<close>

definition legacy_runner :: "unit runner" where
  "legacy_runner =
     example_runner quiet_component
       [\<lparr>self = 0, testCases = [passing_case ''a'' None], beforeEach = None\<rparr>]
       realtime_reporter (Some False) None"

text \<open>One failing case and the realtime reporter whose \<open>send\<close> throws.\<close>

definition disconnected_runner :: "unit runner" where
  "disconnected_runner =
     example_runner quiet_component [failing_suite] throwing_reporter None None"

text \<open>Two cases tagged \<open>smoke\<close> under the filter \<open>['smoke']\<close>; \<open>reRender\<close> throws.\<close>

definition smoke_runner :: "unit runner" where
  "smoke_runner =
     example_runner
       \<lparr>clearAsync = (\<lambda>w. (Returns, w)),
        reRender = (\<lambda>w. (Throws (JSError ''Error'' ''render failed''), w))\<rparr>
       [\<lparr>self = 0,
         testCases = [passing_case ''a'' (Some ''smoke''), passing_case ''b'' (Some ''smoke'')],
         beforeEach = None\<rparr>]
       quiet_callback None (Some [''smoke''])"

text \<open>
  Four cases in two suites, tagged \<open>smoke\<close>, \<open>slow\<close>, not at all and
  \<open>smoke\<close>, under the filter \<open>['smoke']\<close>.
\<close>

definition tagged_suites :: "unit suite list" where
  "tagged_suites =
     [\<lparr>self = 0,
       testCases = [passing_case ''a'' (Some ''smoke''), passing_case ''b'' (Some ''slow'')],
       beforeEach = None\<rparr>,
      \<lparr>self = 1, testCases = [failing_case ''c'' None, failing_case ''d'' (Some ''smoke'')],
       beforeEach = None\<rparr>]"

definition tagged_runner :: "unit runner" where
  "tagged_runner =
     example_runner quiet_component tagged_suites quiet_callback
       None (Some [''smoke''])"

text \<open>The same suites without a filter, reported to the realtime reporter.\<close>

definition unfiltered_runner :: "unit runner" where
  "unfiltered_runner =
     example_runner quiet_component tagged_suites realtime_reporter None None"

text \<open>Two passing cases and a \<open>clearAsync\<close> whose promise rejects.\<close>

definition failing_reset_runner :: "unit runner" where
  "failing_reset_runner =
     example_runner
       \<lparr>clearAsync = (\<lambda>w. (Rejects (JSError ''Error'' ''reset failed''), w)),
        reRender = (\<lambda>w. (Returns, w))\<rparr>
       [\<lparr>self = 0, testCases = [passing_case ''a'' None, passing_case ''b'' None],
         beforeEach = None\<rparr>]
       quiet_callback None None"

text \<open>
  A realtime reporter whose first \<open>send\<close> throws (the world counts the calls of
  \<open>send\<close>), and a run of one passing case with it.
\<close>

definition late_reporter :: "nat reporter" where
  "late_reporter =
     RObject \<lparr>rtype = Some ''realtime'', onFinish = Some (\<lambda>p w. (Returns, w)),
              send = Some (\<lambda>p w. (if w = 0 then Throws (JSError ''Error'' ''not connected'')
                                     else Returns, Suc w))\<rparr>"

definition late_runner :: "nat runner" where
  "late_runner =
     example_runner quiet_component
       [\<lparr>self = 0, testCases = [passing_case ''a'' None], beforeEach = None\<rparr>]
       late_reporter None None"


text \<open>
  A world that keeps a log: every operation appends its mark, the hook and the body
  also the suite they were called on, and the body passes only when it finds the marks
  of the reset, the hook on its suite and the re-render, in this order.
\<close>

definition logging_case :: "nat list test_case" where
  "logging_case =
     \<lparr>describeLabel = ''suite'', label = ''a'', tag = None,
      tc_f = (\<lambda>r w. (if w = [1, 2, r, 3] then Returns
                        else Rejects (JSError ''Error'' ''wrong order''), w @ [4, r]))\<rparr>"

definition logging_suite :: "nat list suite" where
  "logging_suite =
     \<lparr>self = 7, testCases = [logging_case], beforeEach = Some (\<lambda>r w. (Returns, w @ [2, r]))\<rparr>"

definition logging_runner :: "nat list runner" where
  "logging_runner =
     example_runner
       \<lparr>clearAsync = (\<lambda>w. (Returns, w @ [1])), reRender = (\<lambda>w. (Returns, w @ [3]))\<rparr>
       [logging_suite] quiet_callback None None"

text \<open>The suite whose hook throws, with \<open>sendReport\<close> set to \<open>false\<close>.\<close>

definition legacy_hook_runner :: "unit runner" where
  "legacy_hook_runner =
     example_runner quiet_component [broken_hook_suite] realtime_reporter (Some False) None"

section \<open>Properties\<close>

declare loop_j.simps [simp del] loop_i.simps [simp del]

subsection \<open>The steps of \<open>runTest\<close>\<close>

text \<open>
  For each step, what a normal completion and what a raised error say about the state
  before and after.
\<close>

lemma then_do_Normal [simp]: "then_do (Normal s) k = k s"
  by (simp add: then_do_def)

lemma then_do_Raised [simp]: "then_do (Raised e s) k = Raised e s"
  by (simp add: then_do_def)

lemma calls_simps [simp]:
  "calls [] = []" "calls (ev # tr) = call_of ev @ calls tr" "calls (tr @ tr') = calls tr @ calls tr'"
  by (simp_all add: calls_def)

lemma sends_simps [simp]:
  "sends [] = []" "sends (ev # tr) = send_of ev @ sends tr" "sends (tr @ tr') = sends tr @ sends tr'"
  by (simp_all add: sends_def)

lemma deliveries_simps [simp]:
  "deliveries [] = []"
  "deliveries (ev # tr) = (if is_delivery ev then [ev] else []) @ deliveries tr"
  "deliveries (tr @ tr') = deliveries tr @ deliveries tr'"
  by (simp_all add: deliveries_def)

lemma lifecycle_simps [simp]:
  "lifecycle [] = []"
  "lifecycle (ev # tr) = (if is_lifecycle ev then [ev] else []) @ lifecycle tr"
  "lifecycle (tr @ tr') = lifecycle tr @ lifecycle tr'"
  by (simp_all add: lifecycle_def)

lemma snd_new_Date: "snd (new_Date R s) = s\<lparr>ticks := Suc (ticks s)\<rparr>"
  by (simp add: new_Date_def)

lemma call_await_Normal:
  "call_await ev g s = Normal s' \<Longrightarrow>
     fst (g (world s)) = Returns \<and> results s' = results s \<and> errorCount s' = errorCount s \<and>
     ticks s' = ticks s \<and> trace s' = trace s @ [ev] \<and> world s' = snd (g (world s))"
  by (auto simp: call_await_def emit_def Let_def split: prod.splits outcome.splits)

lemma call_await_Raised:
  "call_await ev g s = Raised e s' \<Longrightarrow>
     (fst (g (world s)) = Throws e \<or> fst (g (world s)) = Rejects e) \<and>
     results s' = results s \<and> errorCount s' = errorCount s \<and>
     ticks s' = ticks s \<and> trace s' = trace s @ [ev] \<and> world s' = snd (g (world s))"
  by (auto simp: call_await_def emit_def Let_def split: prod.splits outcome.splits)

lemma call_sync_Normal:
  "call_sync ev g s = Normal s' \<Longrightarrow>
     (\<forall>e. fst (g (world s)) \<noteq> Throws e) \<and> results s' = results s \<and>
     errorCount s' = errorCount s \<and>
     ticks s' = ticks s \<and> trace s' = trace s @ [ev] \<and> world s' = snd (g (world s))"
  by (auto simp: call_sync_def emit_def Let_def split: prod.splits outcome.splits)

lemma call_sync_Raised:
  "call_sync ev g s = Raised e s' \<Longrightarrow>
     fst (g (world s)) = Throws e \<and> results s' = results s \<and> errorCount s' = errorCount s \<and>
     ticks s' = ticks s \<and> trace s' = trace s @ [ev] \<and> world s' = snd (g (world s))"
  by (auto simp: call_sync_def emit_def Let_def split: prod.splits outcome.splits)

lemma realtime_send_Normal:
  "realtime_send R msg ok s = Normal s' \<Longrightarrow>
     results s' = results s \<and> errorCount s' = errorCount s \<and> ticks s' = ticks s \<and>
     trace s' = trace s @ realtime_events R msg ok"
  by (auto simp: realtime_send_def realtime_events_def is_realtime_def
      split: reporter.splits if_splits option.splits dest!: call_sync_Normal)

lemma realtime_send_Raised:
  "realtime_send R msg ok s = Raised e s' \<Longrightarrow>
     \<not> sends_quietly R \<and>
     results s' = results s \<and> errorCount s' = errorCount s \<and> ticks s' = ticks s \<and>
     (trace s' = trace s \<or> trace s' = trace s @ [Send (Fragment msg ok)])"
  by (auto simp: realtime_send_def sends_quietly_def
      split: reporter.splits if_splits option.splits dest!: call_sync_Raised)

lemma realtime_send_quietly:
  "sends_quietly R \<Longrightarrow> \<exists>s'. realtime_send R msg ok s = Normal s'"
  by (cases "realtime_send R msg ok s") (auto dest: realtime_send_Raised)

lemma realtime_send_nullish:
  "reporter R = RNullish \<Longrightarrow> is_Raised (realtime_send R msg ok s)"
  by (simp add: realtime_send_def)

lemma realtime_events_proj [simp]:
  "lifecycle (realtime_events R msg ok) = []"
  "calls (realtime_events R msg ok) = []"
  "deliveries (realtime_events R msg ok) = []"
  "sends (realtime_events R msg ok) = (if is_realtime R then [Fragment msg ok] else [])"
  by (simp_all add: realtime_events_def)

lemma is_realtime_object:
  "reporter R = RObject obj \<Longrightarrow> rtype obj = Some ''realtime'' \<Longrightarrow> is_realtime R"
  by (simp add: is_realtime_def)

lemma before_try_Normal:
  "before_try R scope s = Normal s' \<Longrightarrow>
     results s' = results s \<and> errorCount s' = errorCount s \<and> ticks s' = ticks s \<and>
     trace s' = trace s @ [ClearAsync] @
       (case beforeEach scope of None \<Rightarrow> [] | Some hook \<Rightarrow> [BeforeEach (self scope)]) @ [ReRender]"
  by (auto simp: before_try_def then_do_def
      split: completion.splits option.splits
      dest!: call_await_Normal call_sync_Normal)

lemma before_try_Raised:
  "before_try R scope s = Raised e s' \<Longrightarrow>
     results s' = results s \<and> errorCount s' = errorCount s \<and> ticks s' = ticks s \<and>
     (trace s' = trace s @ [ClearAsync] \<or>
      beforeEach scope \<noteq> None \<and> trace s' = trace s @ [ClearAsync, BeforeEach (self scope)] \<or>
      trace s' = trace s @ [ClearAsync] @
       (case beforeEach scope of None \<Rightarrow> [] | Some hook \<Rightarrow> [BeforeEach (self scope)]) @ [ReRender])"
  by (auto simp: before_try_def then_do_def
      split: completion.splits option.splits
      dest!: call_await_Normal call_sync_Normal call_await_Raised call_sync_Raised)

lemma before_try_clear_fails:
  "fst (clearAsync (component R) (world s)) \<noteq> Returns \<Longrightarrow>
     is_Raised (before_try R scope s) \<and>
     trace (state_of (before_try R scope s)) = trace s @ [ClearAsync]"
  by (auto simp: before_try_def call_await_def emit_def Let_def split: prod.splits outcome.splits)

lemma before_try_hook_fails:
  "fst (clearAsync (component R) (world s)) = Returns \<Longrightarrow> beforeEach scope = Some hook \<Longrightarrow>
   fst (hook (self scope) (snd (clearAsync (component R) (world s)))) \<noteq> Returns \<Longrightarrow>
     is_Raised (before_try R scope s) \<and>
     trace (state_of (before_try R scope s)) = trace s @ [ClearAsync, BeforeEach (self scope)]"
  by (auto simp: before_try_def call_await_def emit_def Let_def split: prod.splits outcome.splits)

lemma try_block_Normal:
  "try_block R scope test start s = Normal s' \<Longrightarrow>
     fst (tc_f test (self scope) (world s)) = Returns \<and>
     errorCount s' = errorCount s \<and> ticks s' = Suc (ticks s) \<and>
     (\<exists>r. results s' = results s @ [r] \<and> passed r \<and> errorMessage r = None \<and>
        description r = describe test \<and>
        trace s' = trace s @ [CallF (self scope) test, ConsoleLog (message r)] @
                   realtime_events R (message r) True)"
  by (auto simp: try_block_def then_do_def new_Date_def emit_def push_result_def Let_def
        describe_def
      split: completion.splits dest!: call_await_Normal realtime_send_Normal)

lemma try_block_Raised:
  "try_block R scope test start s = Raised e s' \<Longrightarrow>
     errorCount s' = errorCount s \<and>
     ((fst (tc_f test (self scope) (world s)) = Throws e \<or>
       fst (tc_f test (self scope) (world s)) = Rejects e) \<and>
      results s' = results s \<and> ticks s' = ticks s \<and>
      trace s' = trace s @ [CallF (self scope) test]
      \<or>
      \<not> sends_quietly R \<and> fst (tc_f test (self scope) (world s)) = Returns \<and>
      ticks s' = Suc (ticks s) \<and>
      (\<exists>r tr. results s' = results s @ [r] \<and> passed r \<and>
         trace s' = trace s @ [CallF (self scope) test, ConsoleLog (message r)] @ tr \<and>
         (tr = [] \<or> tr = [Send (Fragment (message r) True)])))"
  by (auto simp: try_block_def then_do_def new_Date_def emit_def push_result_def Let_def
      split: completion.splits
      dest!: call_await_Normal call_await_Raised realtime_send_Raised)

lemma try_block_body_raises:
  "fst (tc_f test (self scope) (world s)) = Throws e \<or>
   fst (tc_f test (self scope) (world s)) = Rejects e \<Longrightarrow>
   \<exists>s'. try_block R scope test start s = Raised e s' \<and> results s' = results s \<and>
        errorCount s' = errorCount s"
  by (auto simp: try_block_def call_await_def emit_def Let_def split: prod.splits outcome.splits)

lemma catch_block_Normal:
  "catch_block R test start e s = Normal s' \<Longrightarrow>
     errorCount s' = Suc (errorCount s) \<and> ticks s' = Suc (ticks s) \<and>
     (\<exists>r. results s' = results s @ [r] \<and> \<not> passed r \<and>
        get_message e = Inr (errorMessage r) \<and> description r = describe test \<and>
        trace s' = trace s @ [ConsoleWarn (message r)] @ realtime_events R (message r) False)"
  by (auto simp: catch_block_def then_do_def new_Date_def emit_def push_result_def Let_def
        describe_def
      split: completion.splits sum.splits dest!: realtime_send_Normal)

lemma catch_block_Raised:
  "catch_block R test start e s = Raised e' s' \<Longrightarrow>
     errorCount s' = errorCount s \<and> ticks s' = Suc (ticks s) \<and>
     (get_message e = Inl e' \<and> results s' = results s \<and> trace s' = trace s
      \<or>
      \<not> sends_quietly R \<and>
      (\<exists>r tr. results s' = results s @ [r] \<and> \<not> passed r \<and>
         trace s' = trace s @ [ConsoleWarn (message r)] @ tr \<and>
         (tr = [] \<or> tr = [Send (Fragment (message r) False)])))"
  by (auto simp: catch_block_def then_do_def new_Date_def emit_def push_result_def Let_def
      split: completion.splits sum.splits dest!: realtime_send_Raised)



lemma runTest_unfold:
  "runTest R scope test s =
     then_do (before_try R scope (s\<lparr>ticks := Suc (ticks s)\<rparr>)) (\<lambda>s4.
       case try_block R scope test (clock R (ticks s)) s4 of
         Normal s5 \<Rightarrow> Normal s5
       | Raised e s5 \<Rightarrow> catch_block R test (clock R (ticks s)) e s5)"
  by (simp add: runTest_def new_Date_def)

lemma runTest_before_try_Raised:
  "is_Raised (before_try R scope (snd (new_Date R s))) \<Longrightarrow>
     runTest R scope test s = before_try R scope (snd (new_Date R s))"
  by (cases "before_try R scope (snd (new_Date R s))") (simp_all add: runTest_unfold new_Date_def)

lemma expected_lifecycle_proj [simp]:
  "lifecycle (expected_lifecycle scope test) = expected_lifecycle scope test"
  by (simp add: expected_lifecycle_def split: option.splits)

lemma runTest_Normal_trace:
  assumes "runTest R scope test s = Normal s'"
  shows "lifecycle (trace s') = lifecycle (trace s) @ expected_lifecycle scope test"
    and "calls (trace s') = calls (trace s) @ [(self scope, test)]"
    and "deliveries (trace s') = deliveries (trace s)"
    and "ticks s \<le> ticks s'"
  using assms
  by (auto simp: runTest_unfold then_do_def expected_lifecycle_def
      split: completion.splits option.splits
      dest!: before_try_Normal try_block_Normal try_block_Raised catch_block_Normal)

lemma runTest_Normal_consistent:
  assumes "runTest R scope test s = Normal s'" and "consistent s"
  shows "consistent s'"
  using assms
  by (auto simp: runTest_unfold then_do_def consistent_def
      split: completion.splits
      dest!: before_try_Normal try_block_Normal try_block_Raised catch_block_Normal)

lemma runTest_Normal_quietly:
  assumes "runTest R scope test s = Normal s'" and "sends_quietly R"
  shows "\<exists>r. results s' = results s @ [r] \<and> description r = describe test \<and>
           sends (trace s') =
             sends (trace s) @ (if is_realtime R then [Fragment (message r) (passed r)] else [])"
  using assms
  by (auto simp: runTest_unfold then_do_def
      split: completion.splits option.splits
      dest!: before_try_Normal try_block_Normal try_block_Raised catch_block_Normal)

lemma runTest_Raised_trace:
  assumes "runTest R scope test s = Raised e s'"
  shows "deliveries (trace s') = deliveries (trace s)"
    and "ticks s \<le> ticks s'"
    and "\<exists>tr. lifecycle (trace s') = lifecycle (trace s) @ tr \<and>
           prefix tr (expected_lifecycle scope test)"
  using assms
  by (auto simp: runTest_unfold then_do_def expected_lifecycle_def
      split: completion.splits option.splits
      dest!: before_try_Normal before_try_Raised try_block_Raised catch_block_Raised)


lemma runTest_Raised_calls:
  assumes "runTest R scope test s = Raised e s'"
  shows "calls (trace s') = calls (trace s) \<or> calls (trace s') = calls (trace s) @ [(self scope, test)]"
  using assms
  by (auto simp: runTest_unfold then_do_def
      split: completion.splits option.splits
      dest!: before_try_Normal before_try_Raised try_block_Raised catch_block_Raised)

lemma runTest_Raised_consistent:
  assumes "runTest R scope test s = Raised e s'" and "sends_quietly R" and "consistent s"
  shows "consistent s'"
  using assms
  by (auto simp: runTest_unfold then_do_def consistent_def
      split: completion.splits
      dest!: before_try_Normal before_try_Raised try_block_Raised catch_block_Raised)

lemma runTest_nullish:
  assumes "reporter R = RNullish"
  shows "is_Raised (runTest R scope test s)"
proof (cases "runTest R scope test s")
  case (Normal s')
  have "\<not> sends_quietly R"
    using assms by (simp add: sends_quietly_def)
  moreover have "\<And>m ok t u. realtime_send R m ok t \<noteq> Normal u"
    using assms by (simp add: realtime_send_def)
  ultimately show ?thesis
    using Normal
    by (auto simp: runTest_unfold then_do_def try_block_def catch_block_def new_Date_def Let_def
        split: completion.splits sum.splits prod.splits)
next
  case (Raised e s')
  then show ?thesis by simp
qed

subsection \<open>The loops run \<open>runTest\<close> over the selected cases\<close>

text \<open>
  The two loops over the indices are the run of \<open>runTest\<close> over the list of the
  selected cases, which properties of a run are proved on by induction.
\<close>

lemma run_list_append:
  "run_list R (ps @ qs) s = then_do (run_list R ps s) (run_list R qs)"
  by (induction ps arbitrary: s) (auto split: completion.splits)

lemma loop_j_run_list:
  "loop_j R i j s =
     run_list R (selected_cases R (testSuites R ! i) (drop j (testCases (testSuites R ! i)))) s"
proof (induction R i j s rule: loop_j.induct)
  case (1 R i j s)
  let ?sc = "testSuites R ! i"
  show ?case
  proof (cases "j < length (testCases ?sc)")
    case True
    then have d: "drop j (testCases ?sc) = testCases ?sc ! j # drop (Suc j) (testCases ?sc)"
      by (simp add: Cons_nth_drop_Suc)
    show ?thesis
    proof (cases "should_run (tag_filter R) (tag (testCases ?sc ! j))")
      case run: True
      show ?thesis
        using True run "1.IH"[OF True refl refl]
        by (subst loop_j.simps) (simp add: d selected_cases_def Let_def split: completion.splits)
    next
      case skip: False
      show ?thesis
        using True skip "1.IH"[OF True refl refl]
        by (subst loop_j.simps) (simp add: d selected_cases_def Let_def split: completion.splits)
    qed
  next
    case False
    then show ?thesis
      by (subst loop_j.simps) (simp add: selected_cases_def)
  qed
qed

lemma loop_i_run_list:
  "loop_i R i s =
     run_list R (concat (map (\<lambda>sc. selected_cases R sc (testCases sc)) (drop i (testSuites R)))) s"
proof (induction R i s rule: loop_i.induct)
  case (1 R i s)
  show ?case
  proof (cases "i < length (testSuites R)")
    case True
    then have d: "drop i (testSuites R) = testSuites R ! i # drop (Suc i) (testSuites R)"
      by (simp add: Cons_nth_drop_Suc)
    show ?thesis
      using True "1.IH"[OF True]
      by (subst loop_i.simps)
         (simp add: d loop_j_run_list run_list_append then_do_def split: completion.splits)
  next
    case False
    then show ?thesis
      by (subst loop_i.simps) simp
  qed
qed

lemma loop_i_selected: "loop_i R 0 s = run_list R (selected R) s"
  by (simp add: loop_i_run_list selected_def selected_cases_def)


lemma selected_pairs:
  "map (\<lambda>p. (self (fst p), snd p)) (selected R) =
     [(self sc, tc). sc \<leftarrow> testSuites R, tc \<leftarrow> testCases sc,
        (case tag_filter R of None \<Rightarrow> True | Some F \<Rightarrow> (\<exists>t\<in>set F. tag tc = Some t))]"
proof -
  have sr: "should_run (tag_filter R) tg =
      (case tag_filter R of None \<Rightarrow> True | Some F \<Rightarrow> (\<exists>t\<in>set F. tg = Some t))" for tg
    by (auto simp: should_run_def array_includes_def split: option.splits)
  have inner: "map (\<lambda>p. (self (fst p), snd p)) (selected_cases R sc tcs) =
      concat (map (\<lambda>tc. if should_run (tag_filter R) (tag tc) then [(self sc, tc)] else []) tcs)"
    for sc tcs
    by (induction tcs) (simp_all add: selected_cases_def)
  show ?thesis
    unfolding selected_def sr[symmetric]
    by (simp add: map_concat inner comp_def)
qed

lemma selected_unfiltered:
  "tag_filter R = None \<Longrightarrow>
     map (\<lambda>p. describe (snd p)) (selected R) =
       [describe tc. sc \<leftarrow> testSuites R, tc \<leftarrow> testCases sc]"
  by (simp add: selected_def selected_cases_def should_run_def map_concat comp_def)

lemma run_list_Normal_trace:
  "run_list R ps s = Normal s' \<Longrightarrow>
     calls (trace s') = calls (trace s) @ map (\<lambda>p. (self (fst p), snd p)) ps \<and>
     deliveries (trace s') = deliveries (trace s) \<and> ticks s \<le> ticks s'"
proof (induction ps arbitrary: s)
  case Nil
  then show ?case by simp
next
  case (Cons p ps)
  then obtain s1 where a: "runTest R (fst p) (snd p) s = Normal s1" and b: "run_list R ps s1 = Normal s'"
    by (auto split: completion.splits)
  show ?case
    using Cons.IH[OF b] runTest_Normal_trace[OF a] by simp
qed

lemma run_list_Normal_consistent:
  "run_list R ps s = Normal s' \<Longrightarrow> consistent s \<Longrightarrow> consistent s'"
proof (induction ps arbitrary: s)
  case Nil
  then show ?case by simp
next
  case (Cons p ps)
  then obtain s1 where a: "runTest R (fst p) (snd p) s = Normal s1" and b: "run_list R ps s1 = Normal s'"
    by (auto split: completion.splits)
  show ?case
    using Cons.IH[OF b] runTest_Normal_consistent[OF a] Cons.prems(2) by simp
qed

lemma run_list_Normal_quietly:
  "run_list R ps s = Normal s' \<Longrightarrow> sends_quietly R \<Longrightarrow>
     \<exists>rs. results s' = results s @ rs \<and> map description rs = map (\<lambda>p. describe (snd p)) ps \<and>
       sends (trace s') = sends (trace s) @ (if is_realtime R then map fragment_of rs else [])"
proof (induction ps arbitrary: s)
  case Nil
  then show ?case by simp
next
  case (Cons p ps)
  then obtain s1 where a: "runTest R (fst p) (snd p) s = Normal s1" and b: "run_list R ps s1 = Normal s'"
    by (auto split: completion.splits)
  from runTest_Normal_quietly[OF a Cons.prems(2)] obtain r where
    r: "results s1 = results s @ [r]" "description r = describe (snd p)"
       "sends (trace s1) = sends (trace s) @ (if is_realtime R then [Fragment (message r) (passed r)] else [])"
    by blast
  from Cons.IH[OF b Cons.prems(2)] obtain rs where
    rs: "results s' = results s1 @ rs" "map description rs = map (\<lambda>p. describe (snd p)) ps"
        "sends (trace s') = sends (trace s1) @ (if is_realtime R then map fragment_of rs else [])"
    by blast
  show ?case
    using r rs by (intro exI[of _ "r # rs"]) (simp add: fragment_of_def)
qed

lemma run_list_deliveries:
  "deliveries (trace (state_of (run_list R ps s))) = deliveries (trace s)"
proof (induction ps arbitrary: s)
  case Nil
  then show ?case by simp
next
  case (Cons p ps)
  show ?case
  proof (cases "runTest R (fst p) (snd p) s")
    case (Normal s1)
    then show ?thesis
      using Cons.IH[of s1] runTest_Normal_trace(3)[OF Normal] by simp
  next
    case (Raised e s1)
    then show ?thesis
      using runTest_Raised_trace(1)[OF Raised] by simp
  qed
qed

lemma run_list_calls_prefix:
  "\<exists>cs. calls (trace (state_of (run_list R ps s))) = calls (trace s) @ cs \<and>
        prefix cs (map (\<lambda>p. (self (fst p), snd p)) ps)"
proof (induction ps arbitrary: s)
  case Nil
  then show ?case by simp
next
  case (Cons p ps)
  show ?case
  proof (cases "runTest R (fst p) (snd p) s")
    case (Normal s1)
    from Cons.IH[of s1] obtain cs where
      "calls (trace (state_of (run_list R ps s1))) = calls (trace s1) @ cs"
      "prefix cs (map (\<lambda>p. (self (fst p), snd p)) ps)"
      by blast
    then show ?thesis
      using Normal runTest_Normal_trace(2)[OF Normal]
      by (intro exI[of _ "(self (fst p), snd p) # cs"]) simp
  next
    case (Raised e s1)
    from runTest_Raised_calls[OF Raised] show ?thesis
    proof
      assume "calls (trace s1) = calls (trace s)"
      then show ?thesis
        using Raised by (intro exI[of _ "[]"]) simp
    next
      assume "calls (trace s1) = calls (trace s) @ [(self (fst p), snd p)]"
      then show ?thesis
        using Raised by (intro exI[of _ "[(self (fst p), snd p)]"]) simp
    qed
  qed
qed

lemma run_list_consistent:
  "sends_quietly R \<Longrightarrow> consistent s \<Longrightarrow> consistent (state_of (run_list R ps s))"
proof (induction ps arbitrary: s)
  case Nil
  then show ?case by simp
next
  case (Cons p ps)
  show ?case
  proof (cases "runTest R (fst p) (snd p) s")
    case (Normal s1)
    then show ?thesis
      using Cons.IH[OF Cons.prems(1), of s1] runTest_Normal_consistent[OF Normal Cons.prems(2)]
      by simp
  next
    case (Raised e s1)
    then show ?thesis
      using runTest_Raised_consistent[OF Raised Cons.prems] by simp
  qed
qed

lemma run_list_nullish:
  "reporter R = RNullish \<Longrightarrow> ps \<noteq> [] \<Longrightarrow> is_Raised (run_list R ps s)"
  using runTest_nullish[of R]
  by (cases ps) (auto split: completion.splits, metis is_Raised.simps(1))

subsection \<open>After the loops\<close>

lemma dispatch_frame:
  "results (state_of (dispatch R rep s)) = results s \<and>
   errorCount (state_of (dispatch R rep s)) = errorCount s \<and>
   ticks (state_of (dispatch R rep s)) = ticks s"
  by (cases "reporter R")
     (auto simp: dispatch_def call_await_def emit_def Let_def
       split: option.splits prod.splits outcome.splits)

lemma dispatch_function:
  "reporter R = RFunction g \<Longrightarrow> trace (state_of (dispatch R rep s)) = trace s @ [CallReporter rep]"
  by (auto simp: dispatch_def call_await_def emit_def Let_def split: prod.splits outcome.splits)

lemma dispatch_realtime_Normal:
  "reporter R = RObject obj \<Longrightarrow> rtype obj = Some ''realtime'' \<Longrightarrow>
   dispatch R rep s = Normal s' \<Longrightarrow> trace s' = trace s @ [OnFinish rep]"
  by (auto simp: dispatch_def split: option.splits dest!: call_await_Normal)

lemma dispatch_nullish: "reporter R = RNullish \<Longrightarrow> is_Raised (dispatch R rep s)"
  by (simp add: dispatch_def)

lemma dispatch_calls:
  "calls (trace (state_of (dispatch R rep s))) = calls (trace s)"
  by (cases "reporter R")
     (auto simp: dispatch_def call_await_def emit_def Let_def
       split: option.splits prod.splits outcome.splits)

lemma after_loop_frame:
  "results (state_of (after_loop R start s)) = results s \<and>
   errorCount (state_of (after_loop R start s)) = errorCount s"
  by (simp add: after_loop_def new_Date_def emit_def Let_def dispatch_frame split: option.splits)

lemma after_loop_calls:
  "calls (trace (state_of (after_loop R start s))) = calls (trace s)"
  by (simp add: after_loop_def new_Date_def emit_def Let_def dispatch_calls split: option.splits)

lemma after_loop_nullish:
  "reporter R = RNullish \<Longrightarrow> shouldSendReport R \<noteq> Some False \<Longrightarrow>
   is_Raised (after_loop R start s)"
  by (auto simp: after_loop_def new_Date_def Let_def dispatch_nullish split: option.splits)

lemma after_loop_legacy_false:
  "shouldSendReport R = Some False \<Longrightarrow>
     \<exists>s' msg. after_loop R start s = Normal s' \<and>
       trace s' = trace s @ [ConsoleLog msg, ConsoleWarn deprecation_message]"
  by (simp add: after_loop_def new_Date_def emit_def Let_def)

lemma after_loop_realtime_Normal:
  assumes "reporter R = RObject obj" and "rtype obj = Some ''realtime''"
    and "shouldSendReport R = None" and "after_loop R start s3 = Normal s'"
  shows "\<exists>rep msg. trace s' = trace s3 @ [ConsoleLog msg, OnFinish rep] \<and>
           rep_results rep = results s3 \<and> rep_errorCount rep = errorCount s3 \<and>
           results s' = results s3 \<and> errorCount s' = errorCount s3"
  using assms
  by (auto simp: after_loop_def new_Date_def emit_def Let_def make_report_def dispatch_def
      split: option.splits dest!: call_await_Normal)


subsection \<open>The whole run\<close>

lemma runTestSuites_unfold:
  "runTestSuites R s =
     then_do (run_list R (selected R)
        (s\<lparr>ticks := Suc (ticks s),
           trace := trace s @
             [ConsoleLog (''Cavy test suite started at '' @ date_string R (clock R (ticks s)) @ ''.'')]\<rparr>))
       (after_loop R (clock R (ticks s)))"
  by (simp add: runTestSuites_def new_Date_def emit_def loop_i_selected)

lemma runTestSuites_start:
  "runTestSuites R s =
     then_do (run_list R (selected R) (start_state R s)) (after_loop R (clock R (ticks s)))"
  by (simp add: runTestSuites_unfold start_state_def)

lemma start_state_simps [simp]:
  "results (start_state R s) = results s"
  "errorCount (start_state R s) = errorCount s"
  "ticks (start_state R s) = Suc (ticks s)"
  "calls (trace (start_state R s)) = calls (trace s)"
  "sends (trace (start_state R s)) = sends (trace s)"
  "deliveries (trace (start_state R s)) = deliveries (trace s)"
  "consistent (start_state R s) = consistent s"
  by (simp_all add: start_state_def consistent_def)

lemma runTestSuites_Normal_split:
  assumes "runTestSuites R s = Normal s'"
  shows "\<exists>s3. run_list R (selected R) (start_state R s) = Normal s3 \<and>
              after_loop R (clock R (ticks s)) s3 = Normal s'"
  using assms by (auto simp: runTestSuites_start then_do_def split: completion.splits)

lemma runTestSuites_Normal_calls:
  assumes "runTestSuites R s = Normal s'"
  shows "calls (trace s') = calls (trace s) @ map (\<lambda>p. (self (fst p), snd p)) (selected R)"
proof -
  from assms obtain s3 where
    l: "run_list R (selected R) (start_state R s) = Normal s3" and
    a: "after_loop R (clock R (ticks s)) s3 = Normal s'"
    by (auto simp: runTestSuites_start then_do_def split: completion.splits)
  show ?thesis
    using run_list_Normal_trace[OF l] after_loop_calls[of R "clock R (ticks s)" s3] a by simp
qed

lemma runTestSuites_calls_prefix:
  "\<exists>cs. calls (trace (state_of (runTestSuites R s))) = calls (trace s) @ cs \<and>
        prefix cs (map (\<lambda>p. (self (fst p), snd p)) (selected R))"
proof (cases "run_list R (selected R) (start_state R s)")
  case (Normal s3)
  then show ?thesis
    using run_list_calls_prefix[of R "selected R" "start_state R s"]
      after_loop_calls[of R "clock R (ticks s)" s3]
    by (simp add: runTestSuites_start)
next
  case (Raised e s3)
  then show ?thesis
    using run_list_calls_prefix[of R "selected R" "start_state R s"]
    by (simp add: runTestSuites_start)
qed

lemma runTestSuites_consistent:
  assumes "sends_quietly R" and "consistent s"
  shows "consistent (state_of (runTestSuites R s))"
proof (cases "run_list R (selected R) (start_state R s)")
  case (Normal s3)
  then have "consistent s3"
    using run_list_consistent[OF assms(1), of "start_state R s" "selected R"] assms(2) by simp
  then show ?thesis
    using Normal after_loop_frame[of R "clock R (ticks s)" s3]
    by (simp add: runTestSuites_start consistent_def)
next
  case (Raised e s3)
  then show ?thesis
    using run_list_consistent[OF assms(1), of "start_state R s" "selected R"] assms(2)
    by (simp add: runTestSuites_start)
qed

subsection \<open>The lifecycle of a case\<close>

lemma call_await_outcome:
  "call_await ev g s =
     (case fst (g (world s)) of
        Returns \<Rightarrow> Normal (s\<lparr>trace := trace s @ [ev], world := snd (g (world s))\<rparr>)
      | Throws e \<Rightarrow> Raised e (s\<lparr>trace := trace s @ [ev], world := snd (g (world s))\<rparr>)
      | Rejects e \<Rightarrow> Raised e (s\<lparr>trace := trace s @ [ev], world := snd (g (world s))\<rparr>))"
  by (simp add: call_await_def emit_def Let_def split: prod.splits outcome.splits)

lemma call_sync_outcome:
  "call_sync ev g s =
     (case fst (g (world s)) of
        Returns \<Rightarrow> Normal (s\<lparr>trace := trace s @ [ev], world := snd (g (world s))\<rparr>)
      | Throws e \<Rightarrow> Raised e (s\<lparr>trace := trace s @ [ev], world := snd (g (world s))\<rparr>)
      | Rejects e \<Rightarrow> Normal (s\<lparr>trace := trace s @ [ev], world := snd (g (world s))\<rparr>))"
  by (simp add: call_sync_def emit_def Let_def split: prod.splits outcome.splits)

lemma before_try_complete:
  "is_Raised (before_try R scope s) = (\<not> steps_complete R scope (world s))"
proof (cases "fst (clearAsync (component R) (world s))")
  case Returns
  show ?thesis
  proof (cases "beforeEach scope")
    case None
    show ?thesis
      using Returns None
      by (simp add: before_try_def call_await_outcome call_sync_outcome steps_complete_def
          world_after_hook_def world_after_reset_def split: outcome.splits)
  next
    case (Some hook)
    show ?thesis
      using Returns Some
      by (cases "fst (hook (self scope) (snd (clearAsync (component R) (world s))))")
         (simp_all add: before_try_def call_await_outcome call_sync_outcome steps_complete_def
          world_after_hook_def world_after_reset_def split: outcome.splits)
  qed
next
  case (Throws e)
  then show ?thesis
    by (simp add: before_try_def call_await_outcome steps_complete_def)
next
  case (Rejects e)
  then show ?thesis
    by (simp add: before_try_def call_await_outcome steps_complete_def)
qed

lemma before_try_world:
  "before_try R scope s = Normal s' \<Longrightarrow> world s' = world_before_body R scope (world s)"
  by (auto simp: before_try_def then_do_def world_before_body_def world_after_hook_def
        world_after_reset_def
      split: completion.splits option.splits
      dest!: call_await_Normal call_sync_Normal)

lemma realtime_send_frame:
  "results (state_of (realtime_send R msg ok s)) = results s"
proof (cases "realtime_send R msg ok s")
  case (Normal s')
  then show ?thesis
    using realtime_send_Normal[OF Normal] by simp
next
  case (Raised e s')
  then show ?thesis
    using realtime_send_Raised[OF Raised] by simp
qed

lemma realtime_send_world:
  "\<not> is_realtime R \<Longrightarrow> world (state_of (realtime_send R msg ok s)) = world s"
  by (auto simp: realtime_send_def is_realtime_def split: reporter.splits)

lemma realtime_send_idle:
  "\<not> is_realtime R \<Longrightarrow> state_of (realtime_send R msg ok s) = s"
  by (auto simp: realtime_send_def is_realtime_def split: reporter.splits)

lemma try_block_world:
  assumes "\<not> is_realtime R"
  shows "world (state_of (try_block R scope test start s)) = snd (tc_f test (self scope) (world s))"
proof (cases "call_await (CallF (self scope) test) (tc_f test (self scope)) s")
  case (Normal s1)
  have "world s1 = snd (tc_f test (self scope) (world s))"
    using call_await_Normal[OF Normal] by simp
  then show ?thesis
    using Normal realtime_send_idle[OF assms]
    by (simp add: try_block_def new_Date_def emit_def push_result_def Let_def)
next
  case (Raised e s1)
  then show ?thesis
    using call_await_Raised[OF Raised] by (simp add: try_block_def)
qed

lemma counted_send_idle:
  assumes "\<not> is_realtime R"
  shows "world (state_of (then_do (realtime_send R msg ok t) (\<lambda>s4. Normal (f s4)))) =
           (if is_Raised (realtime_send R msg ok t) then world t else world (f t))"
  using realtime_send_idle[OF assms, of msg ok t]
  by (cases "realtime_send R msg ok t") simp_all

lemma catch_block_world:
  assumes "\<not> is_realtime R"
  shows "world (state_of (catch_block R test start e s)) = world s"
  by (cases "get_message e")
     (simp_all add: catch_block_def new_Date_def emit_def push_result_def Let_def
        counted_send_idle[OF assms])

lemma try_block_Returns:
  assumes "fst (tc_f test (self scope) (world s)) = Returns"
  shows "\<exists>r. results (state_of (try_block R scope test start s)) = results s @ [r] \<and>
          passed r \<and> description r = describe test"
proof -
  from assms obtain s1 where
    c: "call_await (CallF (self scope) test) (tc_f test (self scope)) s = Normal s1"
    by (simp add: call_await_outcome)
  have "results s1 = results s"
    using call_await_Normal[OF c] by simp
  then show ?thesis
    using c by (simp add: try_block_def new_Date_def emit_def push_result_def Let_def
        realtime_send_frame)
qed

lemma catch_block_results:
  "results (state_of (catch_block R test start e s)) = results s \<or>
   (\<exists>r. results (state_of (catch_block R test start e s)) = results s @ [r] \<and> \<not> passed r)"
proof (cases "catch_block R test start e s")
  case (Normal s')
  then show ?thesis
    using catch_block_Normal[OF Normal] by auto
next
  case (Raised e' s')
  then show ?thesis
    using catch_block_Raised[OF Raised] by auto
qed

lemma runTest_body_world:
  assumes "steps_complete R scope (world s)" and "\<not> is_realtime R"
  shows "world (state_of (runTest R scope test s)) =
           snd (tc_f test (self scope) (world_before_body R scope (world s)))"
proof -
  let ?s1 = "s\<lparr>ticks := Suc (ticks s)\<rparr>"
  have "\<not> is_Raised (before_try R scope ?s1)"
    using assms(1) by (simp add: before_try_complete)
  then obtain s4 where b: "before_try R scope ?s1 = Normal s4"
    by (cases "before_try R scope ?s1") simp_all
  have w: "world s4 = world_before_body R scope (world s)"
    using before_try_world[OF b] by simp
  show ?thesis
  proof (cases "try_block R scope test (clock R (ticks s)) s4")
    case (Normal s5)
    then show ?thesis
      using b w try_block_world[OF assms(2), of scope test "clock R (ticks s)" s4]
      by (simp add: runTest_unfold)
  next
    case (Raised e s5)
    then show ?thesis
      using b w try_block_world[OF assms(2), of scope test "clock R (ticks s)" s4]
        catch_block_world[OF assms(2), of test "clock R (ticks s)" e s5]
      by (simp add: runTest_unfold)
  qed
qed

lemma runTest_body_returns:
  assumes "steps_complete R scope (world s)"
    and "fst (tc_f test (self scope) (world_before_body R scope (world s))) = Returns"
  shows "\<exists>r rest. results (state_of (runTest R scope test s)) = results s @ r # rest \<and>
           passed r \<and> description r = describe test"
proof -
  let ?s1 = "s\<lparr>ticks := Suc (ticks s)\<rparr>"
  have "\<not> is_Raised (before_try R scope ?s1)"
    using assms(1) by (simp add: before_try_complete)
  then obtain s4 where b: "before_try R scope ?s1 = Normal s4"
    by (cases "before_try R scope ?s1") simp_all
  have w: "world s4 = world_before_body R scope (world s)" and r4: "results s4 = results s"
    using before_try_world[OF b] before_try_Normal[OF b] by simp_all
  from try_block_Returns[of test scope s4 R "clock R (ticks s)"] assms(2) w obtain r where
    r: "results (state_of (try_block R scope test (clock R (ticks s)) s4)) = results s4 @ [r]"
       "passed r" "description r = describe test"
    by auto
  show ?thesis
  proof (cases "try_block R scope test (clock R (ticks s)) s4")
    case (Normal s5)
    then show ?thesis
      using b r r4 by (intro exI[of _ r] exI[of _ "[]"]) (simp add: runTest_unfold)
  next
    case (Raised e s5)
    from catch_block_results[of R test "clock R (ticks s)" e s5]
    show ?thesis
    proof
      assume "results (state_of (catch_block R test (clock R (ticks s)) e s5)) = results s5"
      then show ?thesis
        using Raised b r r4 by (intro exI[of _ r] exI[of _ "[]"]) (simp add: runTest_unfold)
    next
      assume "\<exists>r'. results (state_of (catch_block R test (clock R (ticks s)) e s5)) =
                results s5 @ [r'] \<and> \<not> passed r'"
      then obtain r' where
        "results (state_of (catch_block R test (clock R (ticks s)) e s5)) = results s5 @ [r']"
        by blast
      then show ?thesis
        using Raised b r r4 by (intro exI[of _ r] exI[of _ "[r']"]) (simp add: runTest_unfold)
    qed
  qed
qed

lemma runTest_body_fails:
  assumes "steps_complete R scope (world s)"
    and "fst (tc_f test (self scope) (world_before_body R scope (world s))) \<noteq> Returns"
  shows "results (state_of (runTest R scope test s)) = results s \<or>
         (\<exists>r. results (state_of (runTest R scope test s)) = results s @ [r] \<and> \<not> passed r)"
proof -
  let ?s1 = "s\<lparr>ticks := Suc (ticks s)\<rparr>"
  have "\<not> is_Raised (before_try R scope ?s1)"
    using assms(1) by (simp add: before_try_complete)
  then obtain s4 where b: "before_try R scope ?s1 = Normal s4"
    by (cases "before_try R scope ?s1") simp_all
  have w: "world s4 = world_before_body R scope (world s)" and r4: "results s4 = results s"
    using before_try_world[OF b] before_try_Normal[OF b] by simp_all
  from assms(2) w obtain e where
    "fst (tc_f test (self scope) (world s4)) = Throws e \<or>
     fst (tc_f test (self scope) (world s4)) = Rejects e"
    by (cases "fst (tc_f test (self scope) (world s4))") auto
  from try_block_body_raises[OF this, of R "clock R (ticks s)"] obtain s5 where
    t: "try_block R scope test (clock R (ticks s)) s4 = Raised e s5" "results s5 = results s4"
    by blast
  show ?thesis
    using catch_block_results[of R test "clock R (ticks s)" e s5] b t r4
    by (simp add: runTest_unfold)
qed

lemma runTest_steps_incomplete:
  assumes "\<not> steps_complete R scope (world s)"
  shows "is_Raised (runTest R scope test s) \<and>
         results (state_of (runTest R scope test s)) = results s"
proof -
  have r: "is_Raised (before_try R scope (snd (new_Date R s)))"
    using assms by (simp add: before_try_complete snd_new_Date)
  then obtain e s4 where b: "before_try R scope (snd (new_Date R s)) = Raised e s4"
    by (cases "before_try R scope (snd (new_Date R s))") simp_all
  show ?thesis
    using runTest_before_try_Raised[OF r, of test] b before_try_Raised[OF b]
    by (simp add: snd_new_Date)
qed


lemma runTest_lifecycle_events:
  "\<exists>tr. lifecycle (trace (state_of (runTest R scope test s))) = lifecycle (trace s) @ tr \<and>
        prefix tr (expected_lifecycle scope test) \<and>
        (\<not> is_Raised (before_try R scope (snd (new_Date R s))) \<longrightarrow>
           tr = expected_lifecycle scope test) \<and>
        (is_Raised (before_try R scope (snd (new_Date R s))) \<longrightarrow>
           calls (trace (state_of (runTest R scope test s))) = calls (trace s)) \<and>
        (fst (clearAsync (component R) (world s)) \<noteq> Returns \<longrightarrow> tr = [ClearAsync]) \<and>
        (\<forall>hook. fst (clearAsync (component R) (world s)) = Returns \<and>
           beforeEach scope = Some hook \<and>
           fst (hook (self scope) (snd (clearAsync (component R) (world s)))) \<noteq> Returns \<longrightarrow>
           tr = [ClearAsync, BeforeEach (self scope)])"
proof (cases "before_try R scope (snd (new_Date R s))")
  case (Normal s4)
  have w: "world (snd (new_Date R s)) = world s" and t: "trace (snd (new_Date R s)) = trace s"
    by (simp_all add: new_Date_def)
  have ok: "fst (clearAsync (component R) (world s)) = Returns"
    using before_try_clear_fails[of R "snd (new_Date R s)" scope] Normal w by auto
  have hk: "fst (hook (self scope) (snd (clearAsync (component R) (world s)))) = Returns"
    if "beforeEach scope = Some hook" for hook
    using before_try_hook_fails[of R "snd (new_Date R s)" scope hook] Normal w ok that by auto
  have full: "lifecycle (trace s4) = lifecycle (trace s) @ [ClearAsync] @
      (case beforeEach scope of None \<Rightarrow> [] | Some hook \<Rightarrow> [BeforeEach (self scope)]) @ [ReRender]"
    using before_try_Normal[OF Normal] t by (simp split: option.splits)
  show ?thesis
  proof (cases "runTest R scope test s")
    case n: (Normal s')
    show ?thesis
      using n runTest_Normal_trace(1)[OF n] Normal ok hk
      by (intro exI[of _ "expected_lifecycle scope test"]) auto
  next
    case r: (Raised e s')
    have "lifecycle (trace s') = lifecycle (trace s) @ expected_lifecycle scope test"
      using r Normal full
      by (auto simp: runTest_def then_do_def expected_lifecycle_def
          split: prod.splits completion.splits option.splits
          dest!: try_block_Raised catch_block_Raised)
    then show ?thesis
      using r Normal ok hk
      by (intro exI[of _ "expected_lifecycle scope test"]) auto
  qed
next
  case (Raised e s4)
  have w: "world (snd (new_Date R s)) = world s" and t: "trace (snd (new_Date R s)) = trace s"
    by (simp_all add: new_Date_def)
  have eq: "runTest R scope test s = Raised e s4"
    using runTest_before_try_Raised[of R scope s test] Raised by simp
  from before_try_Raised[OF Raised] t
  consider (a) "trace s4 = trace s @ [ClearAsync]"
    | (b) "beforeEach scope \<noteq> None" "trace s4 = trace s @ [ClearAsync, BeforeEach (self scope)]"
    | (c) "trace s4 = trace s @ [ClearAsync] @
       (case beforeEach scope of None \<Rightarrow> [] | Some hook \<Rightarrow> [BeforeEach (self scope)]) @ [ReRender]"
    by auto
  then show ?thesis
  proof cases
    case a
    show ?thesis
      using a eq Raised w before_try_hook_fails[of R "snd (new_Date R s)" scope]
      by (intro exI[of _ "[ClearAsync]"]) (auto simp: expected_lifecycle_def)
  next
    case b
    show ?thesis
      using b eq Raised w before_try_clear_fails[of R "snd (new_Date R s)" scope]
      by (intro exI[of _ "[ClearAsync, BeforeEach (self scope)]"])
         (auto simp: expected_lifecycle_def)
  next
    case c
    show ?thesis
      using c eq Raised w before_try_clear_fails[of R "snd (new_Date R s)" scope]
        before_try_hook_fails[of R "snd (new_Date R s)" scope]
      by (intro exI[of _ "[ClearAsync] @
       (case beforeEach scope of None \<Rightarrow> [] | Some hook \<Rightarrow> [BeforeEach (self scope)]) @ [ReRender]"])
         (auto simp: expected_lifecycle_def split: option.splits)
  qed
qed

subsection \<open>The lifecycles of a run\<close>

lemma selected_comprehension:
  "selected R =
     [(sc, tc). sc \<leftarrow> testSuites R, tc \<leftarrow> testCases sc,
        (case tag_filter R of None \<Rightarrow> True | Some F \<Rightarrow> (\<exists>t\<in>set F. tag tc = Some t))]"
proof -
  have sr: "should_run (tag_filter R) tg =
      (case tag_filter R of None \<Rightarrow> True | Some F \<Rightarrow> (\<exists>t\<in>set F. tg = Some t))" for tg
    by (auto simp: should_run_def array_includes_def split: option.splits)
  have inner: "selected_cases R sc tcs =
      concat (map (\<lambda>tc. if should_run (tag_filter R) (tag tc) then [(sc, tc)] else []) tcs)"
    for sc tcs
    by (induction tcs) (simp_all add: selected_cases_def)
  show ?thesis
    unfolding selected_def sr[symmetric]
    by (simp add: inner)
qed

lemma selected_lifecycles:
  "map (\<lambda>p. expected_lifecycle (fst p) (snd p)) (selected R) =
     [expected_lifecycle sc tc. sc \<leftarrow> testSuites R, tc \<leftarrow> testCases sc,
        (case tag_filter R of None \<Rightarrow> True | Some F \<Rightarrow> (\<exists>t\<in>set F. tag tc = Some t))]"
proof -
  have sr: "should_run (tag_filter R) tg =
      (case tag_filter R of None \<Rightarrow> True | Some F \<Rightarrow> (\<exists>t\<in>set F. tg = Some t))" for tg
    by (auto simp: should_run_def array_includes_def split: option.splits)
  have inner: "map (\<lambda>p. expected_lifecycle (fst p) (snd p)) (selected_cases R sc tcs) =
      concat (map (\<lambda>tc. if should_run (tag_filter R) (tag tc)
                          then [expected_lifecycle sc tc] else []) tcs)"
    for sc tcs
    by (induction tcs) (simp_all add: selected_cases_def)
  show ?thesis
    unfolding selected_def sr[symmetric]
    by (simp add: map_concat inner comp_def)
qed

lemma run_list_Normal_lifecycle:
  "run_list R ps s = Normal s' \<Longrightarrow>
     lifecycle (trace s') =
       lifecycle (trace s) @ concat (map (\<lambda>p. expected_lifecycle (fst p) (snd p)) ps)"
proof (induction ps arbitrary: s)
  case Nil
  then show ?case by simp
next
  case (Cons p ps)
  then obtain s1 where a: "runTest R (fst p) (snd p) s = Normal s1" and b: "run_list R ps s1 = Normal s'"
    by (auto split: completion.splits)
  show ?case
    using Cons.IH[OF b] runTest_Normal_trace(1)[OF a] by simp
qed

lemma run_list_lifecycle_prefix:
  "\<exists>tr. lifecycle (trace (state_of (run_list R ps s))) = lifecycle (trace s) @ tr \<and>
        prefix tr (concat (map (\<lambda>p. expected_lifecycle (fst p) (snd p)) ps))"
proof (induction ps arbitrary: s)
  case Nil
  then show ?case by simp
next
  case (Cons p ps)
  show ?case
  proof (cases "runTest R (fst p) (snd p) s")
    case (Normal s1)
    from Cons.IH[of s1] obtain tr where
      "lifecycle (trace (state_of (run_list R ps s1))) = lifecycle (trace s1) @ tr"
      "prefix tr (concat (map (\<lambda>p. expected_lifecycle (fst p) (snd p)) ps))"
      by blast
    then show ?thesis
      using Normal runTest_Normal_trace(1)[OF Normal]
      by (intro exI[of _ "expected_lifecycle (fst p) (snd p) @ tr"]) simp
  next
    case (Raised e s1)
    from runTest_Raised_trace(3)[OF Raised] obtain tr where
      "lifecycle (trace s1) = lifecycle (trace s) @ tr"
      "prefix tr (expected_lifecycle (fst p) (snd p))"
      by blast
    then show ?thesis
      using Raised by (intro exI[of _ tr]) (simp add: prefix_prefix)
  qed
qed

lemma dispatch_lifecycle:
  "lifecycle (trace (state_of (dispatch R rep s))) = lifecycle (trace s)"
  by (cases "reporter R")
     (auto simp: dispatch_def call_await_def emit_def Let_def
       split: option.splits prod.splits outcome.splits)

lemma after_loop_lifecycle:
  "lifecycle (trace (state_of (after_loop R start s))) = lifecycle (trace s)"
  by (simp add: after_loop_def new_Date_def emit_def Let_def dispatch_lifecycle split: option.splits)

lemma start_state_lifecycle [simp]:
  "lifecycle (trace (start_state R s)) = lifecycle (trace s)"
  by (simp add: start_state_def)

lemma runTestSuites_lifecycle_prefix:
  "\<exists>tr. lifecycle (trace (state_of (runTestSuites R s))) = lifecycle (trace s) @ tr \<and>
        prefix tr (concat (map (\<lambda>p. expected_lifecycle (fst p) (snd p)) (selected R)))"
proof (cases "run_list R (selected R) (start_state R s)")
  case (Normal s3)
  then show ?thesis
    using run_list_lifecycle_prefix[of R "selected R" "start_state R s"]
      after_loop_lifecycle[of R "clock R (ticks s)" s3]
    by (simp add: runTestSuites_start)
next
  case (Raised e s3)
  then show ?thesis
    using run_list_lifecycle_prefix[of R "selected R" "start_state R s"]
    by (simp add: runTestSuites_start)
qed

lemma runTestSuites_Normal_lifecycle:
  assumes "runTestSuites R s = Normal s'"
  shows "lifecycle (trace s') =
     lifecycle (trace s) @ concat (map (\<lambda>p. expected_lifecycle (fst p) (snd p)) (selected R))"
proof -
  from runTestSuites_Normal_split[OF assms] obtain s3 where
    l: "run_list R (selected R) (start_state R s) = Normal s3" and
    a: "after_loop R (clock R (ticks s)) s3 = Normal s'"
    by blast
  show ?thesis
    using run_list_Normal_lifecycle[OF l] after_loop_lifecycle[of R "clock R (ticks s)" s3] a by simp
qed

subsection \<open>Evaluating the examples\<close>

lemmas example_defs = quiet_component_def quiet_callback_def passing_case_def failing_case_def
  example_runner_def

lemmas eval_defs = runTestSuites_def after_loop_def dispatch_def make_report_def
  loop_i.simps loop_j.simps should_run_def array_includes_def
  runTest_def before_try_def try_block_def catch_block_def realtime_send_def describe_def
  call_await_def call_sync_def new_Date_def emit_def push_result_def initial_def
  TypeError_def ReferenceError_def Let_def

section \<open>The claims\<close>




text \<open>
  C2, as amended. With \<open>sendReport\<close> set to \<open>false\<close> no call hands a report to the
  reporter (no call of a callback, no \<open>onFinish\<close>, no \<open>send\<close> of a report), whatever
  the suites are, and a run that completes normally ends with the deprecation warning.
\<close>

theorem legacy_false_delivers_no_report:
  assumes "shouldSendReport R = Some False"
  shows "deliveries (trace (state_of (runTestSuites R s))) = deliveries (trace s) \<and>
         (runTestSuites R s = Normal s' \<longrightarrow> last (trace s') = ConsoleWarn deprecation_message)"
proof (cases "run_list R (selected R) (start_state R s)")
  case (Normal s3)
  from after_loop_legacy_false[OF assms, of "clock R (ticks s)" s3] obtain s4 msg where
    a: "after_loop R (clock R (ticks s)) s3 = Normal s4"
       "trace s4 = trace s3 @ [ConsoleLog msg, ConsoleWarn deprecation_message]"
    by blast
  have "deliveries (trace s3) = deliveries (trace s)"
    using run_list_deliveries[of R "selected R" "start_state R s"] Normal by simp
  then show ?thesis
    using Normal a by (auto simp: runTestSuites_start)
next
  case (Raised e s3)
  then show ?thesis
    using run_list_deliveries[of R "selected R" "start_state R s"]
    by (simp add: runTestSuites_start)
qed

theorem legacy_false_delivers_no_report_witness:
  "shouldSendReport legacy_runner = Some False \<and>
   deliveries (trace (state_of (runTestSuites legacy_runner (initial ())))) = [] \<and>
   runTestSuites legacy_runner (initial ()) = Normal (state_of (runTestSuites legacy_runner (initial ()))) \<and>
   last (trace (state_of (runTestSuites legacy_runner (initial ())))) = ConsoleWarn deprecation_message"
proof -
  have f: "shouldSendReport legacy_runner = Some False"
    by (simp add: legacy_runner_def example_defs)
  have n: "\<not> is_Raised (runTestSuites legacy_runner (initial ()))"
    by (simp add: legacy_runner_def realtime_reporter_def example_defs eval_defs)
  then have e: "runTestSuites legacy_runner (initial ()) =
      Normal (state_of (runTestSuites legacy_runner (initial ())))"
    by (cases "runTestSuites legacy_runner (initial ())") simp_all
  have i: "deliveries (trace (initial ())) = ([] :: unit event list)"
    by (simp add: initial_def)
  show ?thesis
    using f e i legacy_false_delivers_no_report[OF f, of "initial ()"
        "state_of (runTestSuites legacy_runner (initial ()))"]
    by simp
qed

text \<open>
  C2 as stated fails: with the flag \<open>false\<close>, a hook that throws ends the run before
  the warning is reached; and the realtime reporter is still sent the result of a
  passing case, which the comment of lines 62-63 (the flag is honoured by not reporting
  results if set to false) does not intend.
\<close>

theorem legacy_false_claim_fails:
  "shouldSendReport legacy_hook_runner = Some False \<and>
   runTestSuites legacy_hook_runner (initial ()) =
     Raised (JSError ''Error'' ''setup failed'')
       \<lparr>results = [], errorCount = 0,
        trace = [ConsoleLog ''Cavy test suite started at now.'', ClearAsync, BeforeEach 0],
        world = (), ticks = 2\<rparr> \<and>
   shouldSendReport legacy_runner = Some False \<and>
   sends (trace (state_of (runTestSuites legacy_runner (initial ())))) =
     [Fragment (''suite: a  '' @ success_glyph) True]"
  by (simp add: legacy_hook_runner_def broken_hook_suite_def legacy_runner_def
      realtime_reporter_def example_defs eval_defs)

text \<open>
  C3. A reporter that is an object of none of the three kinds, in a run without cases
  and without the \<open>sendReport\<close> flag: the last branch of the dispatch assigns to the
  undeclared \<open>message\<close>, so the run ends in a ReferenceError and the message about the
  reporter is never logged.
\<close>

theorem shapeless_reporter_raises:
  "runTestSuites shapeless_runner (initial ()) =
     Raised (ReferenceError ''message is not defined'')
       \<lparr>results = [], errorCount = 0,
        trace = [ConsoleLog ''Cavy test suite started at now.'',
                 ConsoleLog ''Cavy test suite stopped at now, duration: some seconds.''],
        world = (), ticks = 2\<rparr>"
  by (simp add: shapeless_runner_def example_defs eval_defs)

text \<open>
  C4, as amended. The two loops are the run of \<open>runTest\<close>, one after the other and
  up to the first error that escapes, over the cases the filter admits and over no
  other: with a filter, the cases whose tag is a member of it (so nothing is ever run
  for a case without a tag or with another tag); without one, all the cases. So in
  every run the steps of the lifecycle performed (reset, hook, re-render, body) are, in
  order, an initial part of the lifecycles of the admitted cases, and in a run that
  completes normally they are the whole lifecycle of each admitted case, once. The same
  holds of the test bodies called.
\<close>

theorem filter_decides_execution:
  "loop_i R 0 s =
     run_list R [(sc, tc). sc \<leftarrow> testSuites R, tc \<leftarrow> testCases sc,
        (case tag_filter R of None \<Rightarrow> True | Some F \<Rightarrow> (\<exists>t\<in>set F. tag tc = Some t))] s \<and>
   (\<exists>tr. lifecycle (trace (state_of (runTestSuites R s))) = lifecycle (trace s) @ tr \<and>
      prefix tr (concat [expected_lifecycle sc tc. sc \<leftarrow> testSuites R, tc \<leftarrow> testCases sc,
        (case tag_filter R of None \<Rightarrow> True | Some F \<Rightarrow> (\<exists>t\<in>set F. tag tc = Some t))])) \<and>
   (\<exists>cs. calls (trace (state_of (runTestSuites R s))) = calls (trace s) @ cs \<and>
      prefix cs [(self sc, tc). sc \<leftarrow> testSuites R, tc \<leftarrow> testCases sc,
        (case tag_filter R of None \<Rightarrow> True | Some F \<Rightarrow> (\<exists>t\<in>set F. tag tc = Some t))]) \<and>
   (runTestSuites R s = Normal s' \<longrightarrow>
      lifecycle (trace s') = lifecycle (trace s) @
        concat [expected_lifecycle sc tc. sc \<leftarrow> testSuites R, tc \<leftarrow> testCases sc,
          (case tag_filter R of None \<Rightarrow> True | Some F \<Rightarrow> (\<exists>t\<in>set F. tag tc = Some t))] \<and>
      calls (trace s') = calls (trace s) @
        [(self sc, tc). sc \<leftarrow> testSuites R, tc \<leftarrow> testCases sc,
          (case tag_filter R of None \<Rightarrow> True | Some F \<Rightarrow> (\<exists>t\<in>set F. tag tc = Some t))])"
proof -
  have l: "loop_i R 0 s =
     run_list R [(sc, tc). sc \<leftarrow> testSuites R, tc \<leftarrow> testCases sc,
        (case tag_filter R of None \<Rightarrow> True | Some F \<Rightarrow> (\<exists>t\<in>set F. tag tc = Some t))] s"
    using loop_i_selected[of R s] by (simp only: selected_comprehension)
  have r: "(\<exists>tr. lifecycle (trace (state_of (runTestSuites R s))) = lifecycle (trace s) @ tr \<and>
      prefix tr (concat [expected_lifecycle sc tc. sc \<leftarrow> testSuites R, tc \<leftarrow> testCases sc,
        (case tag_filter R of None \<Rightarrow> True | Some F \<Rightarrow> (\<exists>t\<in>set F. tag tc = Some t))])) \<and>
   (\<exists>cs. calls (trace (state_of (runTestSuites R s))) = calls (trace s) @ cs \<and>
      prefix cs [(self sc, tc). sc \<leftarrow> testSuites R, tc \<leftarrow> testCases sc,
        (case tag_filter R of None \<Rightarrow> True | Some F \<Rightarrow> (\<exists>t\<in>set F. tag tc = Some t))]) \<and>
   (runTestSuites R s = Normal s' \<longrightarrow>
      lifecycle (trace s') = lifecycle (trace s) @
        concat [expected_lifecycle sc tc. sc \<leftarrow> testSuites R, tc \<leftarrow> testCases sc,
          (case tag_filter R of None \<Rightarrow> True | Some F \<Rightarrow> (\<exists>t\<in>set F. tag tc = Some t))] \<and>
      calls (trace s') = calls (trace s) @
        [(self sc, tc). sc \<leftarrow> testSuites R, tc \<leftarrow> testCases sc,
          (case tag_filter R of None \<Rightarrow> True | Some F \<Rightarrow> (\<exists>t\<in>set F. tag tc = Some t))])"
    using runTestSuites_calls_prefix[of R s] runTestSuites_Normal_calls[of R s s']
      runTestSuites_lifecycle_prefix[of R s] runTestSuites_Normal_lifecycle[of R s s']
    by (simp only: selected_pairs selected_lifecycles) blast
  show ?thesis
    by (rule conjI[OF l r])
qed

theorem filter_decides_execution_witness:
  "runTestSuites tagged_runner (initial ()) =
     Normal (state_of (runTestSuites tagged_runner (initial ()))) \<and>
   lifecycle (trace (state_of (runTestSuites tagged_runner (initial ())))) =
     [ClearAsync, ReRender, CallF 0 (passing_case ''a'' (Some ''smoke'')),
      ClearAsync, ReRender, CallF 1 (failing_case ''d'' (Some ''smoke''))] \<and>
   calls (trace (state_of (runTestSuites tagged_runner (initial ())))) =
     [(0, passing_case ''a'' (Some ''smoke'')), (1, failing_case ''d'' (Some ''smoke''))]"
proof -
  have n: "\<not> is_Raised (runTestSuites tagged_runner (initial ()))"
    by (simp add: tagged_runner_def tagged_suites_def example_defs eval_defs)
  then have e: "runTestSuites tagged_runner (initial ()) =
      Normal (state_of (runTestSuites tagged_runner (initial ())))"
    by (cases "runTestSuites tagged_runner (initial ())") simp_all
  show ?thesis
    using e filter_decides_execution[of tagged_runner "initial ()"
        "state_of (runTestSuites tagged_runner (initial ()))"]
    by (simp add: tagged_runner_def tagged_suites_def example_defs initial_def
        expected_lifecycle_def)
qed

text \<open>
  C4 as stated fails: both cases carry a tag of the filter, \<open>reRender\<close> throws in the
  lifecycle of the first, and the run ends there: the second case is never started.
\<close>

theorem tagged_case_never_started:
  "tag_filter smoke_runner = Some [''smoke''] \<and>
   testSuites smoke_runner =
     [\<lparr>self = 0,
       testCases = [passing_case ''a'' (Some ''smoke''), passing_case ''b'' (Some ''smoke'')],
       beforeEach = None\<rparr>] \<and>
   runTestSuites smoke_runner (initial ()) =
     Raised (JSError ''Error'' ''render failed'')
       \<lparr>results = [], errorCount = 0,
        trace = [ConsoleLog ''Cavy test suite started at now.'', ClearAsync, ReRender],
        world = (), ticks = 2\<rparr>"
  by (simp add: smoke_runner_def example_defs eval_defs)

text \<open>
  C5, as amended. The counter agrees with the results in the initial state, and again
  whenever \<open>runTest\<close> completes normally from a state where it did, hence between the
  cases and at the end of a run that completes normally. When the reporter is there and
  its realtime \<open>send\<close> does not throw, it also does when \<open>runTest\<close> or the run
  ends in an error.
\<close>

theorem errorCount_counts_failed_results:
  "consistent (initial w) \<and>
   (consistent s \<and> runTest R scope test s = Normal s1 \<longrightarrow> consistent s1) \<and>
   (consistent s \<and> runTestSuites R s = Normal s2 \<longrightarrow> consistent s2) \<and>
   (consistent s \<and> sends_quietly R \<longrightarrow>
      consistent (state_of (runTest R scope test s)) \<and>
      consistent (state_of (runTestSuites R s)))"
proof -
  have "consistent s2" if c: "consistent s" and r: "runTestSuites R s = Normal s2"
  proof -
    from r obtain s3 where
      l: "run_list R (selected R) (start_state R s) = Normal s3" and
      a: "after_loop R (clock R (ticks s)) s3 = Normal s2"
      by (auto simp: runTestSuites_start then_do_def split: completion.splits)
    have "consistent s3"
      using run_list_Normal_consistent[OF l] c by simp
    then show ?thesis
      using after_loop_frame[of R "clock R (ticks s)" s3] a by (simp add: consistent_def)
  qed
  moreover have "consistent (state_of (runTest R scope test s))"
    if "consistent s" and "sends_quietly R"
    using that runTest_Normal_consistent[of R scope test s]
      runTest_Raised_consistent[of R scope test s]
    by (cases "runTest R scope test s") simp_all
  moreover have "consistent (initial w)"
    by (simp add: consistent_def initial_def)
  ultimately show ?thesis
    using runTest_Normal_consistent runTestSuites_consistent by blast
qed

theorem errorCount_counts_failed_results_witness:
  "consistent (initial ()) \<and>
   runTest failing_runner failing_suite (failing_case ''a'' None) (initial ()) =
     Normal (state_of (runTest failing_runner failing_suite (failing_case ''a'' None) (initial ()))) \<and>
   consistent (state_of (runTest failing_runner failing_suite (failing_case ''a'' None) (initial ()))) \<and>
   runTestSuites failing_runner (initial ()) = Normal (state_of (runTestSuites failing_runner (initial ()))) \<and>
   errorCount (state_of (runTestSuites failing_runner (initial ()))) = 1 \<and>
   map passed (results (state_of (runTestSuites failing_runner (initial ())))) = [False] \<and>
   consistent (state_of (runTestSuites failing_runner (initial ()))) \<and>
   sends_quietly broken_hook_runner \<and>
   is_Raised (runTestSuites broken_hook_runner (initial ())) \<and>
   consistent (state_of (runTestSuites broken_hook_runner (initial ())))"
proof -
  have n: "\<not> is_Raised (runTestSuites failing_runner (initial ()))"
    by (simp add: failing_runner_def failing_suite_def example_defs eval_defs)
  then have e: "runTestSuites failing_runner (initial ()) =
      Normal (state_of (runTestSuites failing_runner (initial ())))"
    by (cases "runTestSuites failing_runner (initial ())") simp_all
  have n1: "\<not> is_Raised (runTest failing_runner failing_suite (failing_case ''a'' None) (initial ()))"
    by (simp add: failing_runner_def failing_suite_def example_defs eval_defs)
  then have e1: "runTest failing_runner failing_suite (failing_case ''a'' None) (initial ()) =
     Normal (state_of (runTest failing_runner failing_suite (failing_case ''a'' None) (initial ())))"
    by (cases "runTest failing_runner failing_suite (failing_case ''a'' None) (initial ())") simp_all
  have v: "errorCount (state_of (runTestSuites failing_runner (initial ()))) = 1"
    "map passed (results (state_of (runTestSuites failing_runner (initial ())))) = [False]"
    by (simp_all add: failing_runner_def failing_suite_def example_defs eval_defs)
  have q: "sends_quietly broken_hook_runner"
    by (simp add: sends_quietly_def broken_hook_runner_def example_defs)
  have r: "is_Raised (runTestSuites broken_hook_runner (initial ()))"
    by (simp add: broken_hook_runner_def broken_hook_suite_def example_defs eval_defs)
  show ?thesis
    using e e1 v q r
      errorCount_counts_failed_results[of "()" "initial ()" failing_runner failing_suite
        "failing_case ''a'' None"
        "state_of (runTest failing_runner failing_suite (failing_case ''a'' None) (initial ()))"
        "state_of (runTestSuites failing_runner (initial ()))"]
      errorCount_counts_failed_results[of "()" "initial ()" broken_hook_runner]
    by simp
qed

text \<open>
  C5 as stated fails: the case fails, its result is pushed, the \<open>send\<close> of the realtime
  reporter throws inside the \<open>catch\<close>, and the run ends with one failed result and a
  counter still at zero.
\<close>

theorem failed_send_leaves_count_behind:
  "errorCount (state_of (runTestSuites disconnected_runner (initial ()))) = 0 \<and>
   map passed (results (state_of (runTestSuites disconnected_runner (initial ())))) = [False] \<and>
   \<not> consistent (state_of (runTestSuites disconnected_runner (initial ())))"
  by (simp add: disconnected_runner_def failing_suite_def throwing_reporter_def consistent_def
      example_defs eval_defs)

text \<open>
  C6, as amended. Without a filter the test bodies called are, in every run, an
  initial part of the list of all the declared cases, suite by suite and case by case:
  no case runs twice or out of order. In a run that completes normally they are the
  whole list; and when the reporter is there and its realtime \<open>send\<close> does not
  throw, the results added are one for each case, in that order.
\<close>

theorem unfiltered_run_executes_all:
  assumes "tag_filter R = None"
  shows "(\<exists>cs. calls (trace (state_of (runTestSuites R s))) = calls (trace s) @ cs \<and>
            prefix cs [(self sc, tc). sc \<leftarrow> testSuites R, tc \<leftarrow> testCases sc]) \<and>
         (runTestSuites R s = Normal s' \<longrightarrow>
            calls (trace s') = calls (trace s) @
              [(self sc, tc). sc \<leftarrow> testSuites R, tc \<leftarrow> testCases sc] \<and>
            (sends_quietly R \<longrightarrow>
               (\<exists>rs. results s' = results s @ rs \<and>
                  map description rs =
                    [describe tc. sc \<leftarrow> testSuites R, tc \<leftarrow> testCases sc])))"
proof -
  have p: "\<exists>cs. calls (trace (state_of (runTestSuites R s))) = calls (trace s) @ cs \<and>
            prefix cs [(self sc, tc). sc \<leftarrow> testSuites R, tc \<leftarrow> testCases sc]"
    using runTestSuites_calls_prefix[of R s] assms by (simp add: selected_pairs)
  have n: "calls (trace s') = calls (trace s) @
              [(self sc, tc). sc \<leftarrow> testSuites R, tc \<leftarrow> testCases sc] \<and>
            (sends_quietly R \<longrightarrow>
               (\<exists>rs. results s' = results s @ rs \<and>
                  map description rs =
                    [describe tc. sc \<leftarrow> testSuites R, tc \<leftarrow> testCases sc]))"
    if run: "runTestSuites R s = Normal s'"
  proof -
    from runTestSuites_Normal_split[OF run] obtain s3 where
      l: "run_list R (selected R) (start_state R s) = Normal s3" and
      a: "after_loop R (clock R (ticks s)) s3 = Normal s'"
      by blast
    have r: "results s' = results s3"
      using after_loop_frame[of R "clock R (ticks s)" s3] a by simp
    have "calls (trace s') = calls (trace s) @
            [(self sc, tc). sc \<leftarrow> testSuites R, tc \<leftarrow> testCases sc]"
      using runTestSuites_Normal_calls[OF run] assms by (simp add: selected_pairs)
    moreover have "\<exists>rs. results s' = results s @ rs \<and>
        map description rs = [describe tc. sc \<leftarrow> testSuites R, tc \<leftarrow> testCases sc]"
      if "sends_quietly R"
      using run_list_Normal_quietly[OF l that] r selected_unfiltered[OF assms] by auto
    ultimately show ?thesis by blast
  qed
  show ?thesis
    using p n by blast
qed

theorem unfiltered_run_executes_all_witness:
  "tag_filter unfiltered_runner = None \<and>
   runTestSuites unfiltered_runner (initial ()) =
     Normal (state_of (runTestSuites unfiltered_runner (initial ()))) \<and>
   sends_quietly unfiltered_runner \<and>
   calls (trace (state_of (runTestSuites unfiltered_runner (initial ())))) =
     [(0, passing_case ''a'' (Some ''smoke'')), (0, passing_case ''b'' (Some ''slow'')),
      (1, failing_case ''c'' None), (1, failing_case ''d'' (Some ''smoke''))] \<and>
   map description (results (state_of (runTestSuites unfiltered_runner (initial ())))) =
     [''suite: a'', ''suite: b'', ''suite: c'', ''suite: d'']"
proof -
  have f: "tag_filter unfiltered_runner = None"
    by (simp add: unfiltered_runner_def example_defs)
  have n: "\<not> is_Raised (runTestSuites unfiltered_runner (initial ()))"
    by (simp add: unfiltered_runner_def tagged_suites_def realtime_reporter_def example_defs eval_defs)
  then have e: "runTestSuites unfiltered_runner (initial ()) =
      Normal (state_of (runTestSuites unfiltered_runner (initial ())))"
    by (cases "runTestSuites unfiltered_runner (initial ())") simp_all
  have q: "sends_quietly unfiltered_runner"
    by (simp add: sends_quietly_def unfiltered_runner_def realtime_reporter_def example_defs)
  show ?thesis
    using f e q unfiltered_run_executes_all[OF f, of "initial ()"
        "state_of (runTestSuites unfiltered_runner (initial ()))"]
    by (auto simp: unfiltered_runner_def tagged_suites_def example_defs initial_def describe_def)
qed

text \<open>
  C6 as stated fails: there is no filter, the promise of \<open>clearAsync\<close> rejects in the
  lifecycle of the first case, and the run ends there: no body is called, no result is
  recorded and the second case is never started.
\<close>

theorem reset_error_ends_run:
  "tag_filter failing_reset_runner = None \<and>
   testSuites failing_reset_runner =
     [\<lparr>self = 0, testCases = [passing_case ''a'' None, passing_case ''b'' None],
       beforeEach = None\<rparr>] \<and>
   runTestSuites failing_reset_runner (initial ()) =
     Raised (JSError ''Error'' ''reset failed'')
       \<lparr>results = [], errorCount = 0,
        trace = [ConsoleLog ''Cavy test suite started at now.'', ClearAsync],
        world = (), ticks = 2\<rparr>"
  by (simp add: failing_reset_runner_def example_defs eval_defs)

text \<open>
  C7, as amended. With a reporter object of type \<open>'realtime'\<close> whose \<open>send\<close> does
  not throw, no \<open>sendReport\<close> flag, and a run that completes normally: one result is
  added for each executed case, in the order of execution; \<open>send\<close> is called exactly
  once for each of these results, in that order, with its \<open>{message, passed}\<close>; and
  the only call that hands over a report is one \<open>onFinish\<close>, the last call of the
  run, with the report of the accumulated results and count.
\<close>

theorem realtime_reporter_calls:
  assumes "reporter R = RObject obj" and "rtype obj = Some ''realtime''"
    and "sends_quietly R" and "shouldSendReport R = None"
    and "runTestSuites R s = Normal s'"
  shows "\<exists>rs rep. results s' = results s @ rs \<and>
           calls (trace s') = calls (trace s) @ map (\<lambda>p. (self (fst p), snd p)) (selected R) \<and>
           map description rs = map (\<lambda>p. describe (snd p)) (selected R) \<and>
           sends (trace s') = sends (trace s) @ map fragment_of rs \<and>
           deliveries (trace s') = deliveries (trace s) @ [OnFinish rep] \<and>
           last (trace s') = OnFinish rep \<and>
           rep_results rep = results s' \<and> rep_errorCount rep = errorCount s'"
proof -
  from runTestSuites_Normal_split[OF assms(5)] obtain s3 where
    l: "run_list R (selected R) (start_state R s) = Normal s3" and
    a: "after_loop R (clock R (ticks s)) s3 = Normal s'"
    by blast
  from run_list_Normal_quietly[OF l assms(3)] is_realtime_object[OF assms(1,2)] obtain rs where
    rs: "results s3 = results s @ rs" "map description rs = map (\<lambda>p. describe (snd p)) (selected R)"
        "sends (trace s3) = sends (trace s) @ map fragment_of rs"
    by auto
  from after_loop_realtime_Normal[OF assms(1,2,4) a] obtain rep msg where
    rep: "trace s' = trace s3 @ [ConsoleLog msg, OnFinish rep]"
         "rep_results rep = results s3" "rep_errorCount rep = errorCount s3"
         "results s' = results s3" "errorCount s' = errorCount s3"
    by blast
  have d: "deliveries (trace s3) = deliveries (trace s)"
    using run_list_Normal_trace[OF l] by simp
  show ?thesis
    using rs rep d runTestSuites_Normal_calls[OF assms(5)]
    by (intro exI[of _ rs] exI[of _ rep]) simp
qed

theorem realtime_reporter_calls_witness:
  "reporter unfiltered_runner = realtime_reporter \<and>
   sends_quietly unfiltered_runner \<and> shouldSendReport unfiltered_runner = None \<and>
   runTestSuites unfiltered_runner (initial ()) =
     Normal (state_of (runTestSuites unfiltered_runner (initial ()))) \<and>
   length (calls (trace (state_of (runTestSuites unfiltered_runner (initial ()))))) = 4 \<and>
   sends (trace (state_of (runTestSuites unfiltered_runner (initial ())))) =
     map fragment_of (results (state_of (runTestSuites unfiltered_runner (initial ())))) \<and>
   length (results (state_of (runTestSuites unfiltered_runner (initial ())))) = 4 \<and>
   length (deliveries (trace (state_of (runTestSuites unfiltered_runner (initial ()))))) = 1"
proof -
  have o: "reporter unfiltered_runner =
      RObject \<lparr>rtype = Some ''realtime'', onFinish = Some (\<lambda>p w. (Returns, w)),
              send = Some (\<lambda>p w. (Returns, w))\<rparr>"
    by (simp add: unfiltered_runner_def realtime_reporter_def example_defs)
  have t: "rtype \<lparr>rtype = Some ''realtime'', onFinish = Some (\<lambda>p (w::unit). (Returns, w)),
              send = Some (\<lambda>p w. (Returns, w))\<rparr> = Some ''realtime''"
    by simp
  have q: "sends_quietly unfiltered_runner"
    by (simp add: sends_quietly_def unfiltered_runner_def realtime_reporter_def example_defs)
  have f: "shouldSendReport unfiltered_runner = None"
    by (simp add: unfiltered_runner_def example_defs)
  have n: "\<not> is_Raised (runTestSuites unfiltered_runner (initial ()))"
    by (simp add: unfiltered_runner_def tagged_suites_def realtime_reporter_def example_defs eval_defs)
  then have e: "runTestSuites unfiltered_runner (initial ()) =
      Normal (state_of (runTestSuites unfiltered_runner (initial ())))"
    by (cases "runTestSuites unfiltered_runner (initial ())") simp_all
  have s: "length (selected unfiltered_runner) = 4"
    by (simp add: selected_def selected_cases_def should_run_def unfiltered_runner_def
        tagged_suites_def example_defs)
  have i: "results (initial ()) = []" "trace (initial ()) = ([] :: unit event list)"
    by (simp_all add: initial_def)
  from realtime_reporter_calls[OF o t q f e] obtain rs rep where
    "results (state_of (runTestSuites unfiltered_runner (initial ()))) = rs"
    "calls (trace (state_of (runTestSuites unfiltered_runner (initial ())))) =
       map (\<lambda>p. (self (fst p), snd p)) (selected unfiltered_runner)"
    "map description rs = map (\<lambda>p. describe (snd p)) (selected unfiltered_runner)"
    "sends (trace (state_of (runTestSuites unfiltered_runner (initial ())))) = map fragment_of rs"
    "deliveries (trace (state_of (runTestSuites unfiltered_runner (initial ())))) = [OnFinish rep]"
    using i by auto
  then show ?thesis
    using o q f e s by (simp add: realtime_reporter_def) (metis length_map)
qed

text \<open>
  C7 as stated fails: the first \<open>send\<close> throws inside the \<open>try\<close>, the \<open>catch\<close>
  records a failure for the case that had passed and calls \<open>send\<close> again, and the run
  completes: one executed case, two results and two \<open>send\<close> calls.
\<close>

theorem throwing_send_is_called_twice:
  "shouldSendReport late_runner = None \<and>
   \<not> is_Raised (runTestSuites late_runner (initial 0)) \<and>
   calls (trace (state_of (runTestSuites late_runner (initial 0)))) = [(0, passing_case ''a'' None)] \<and>
   map passed (results (state_of (runTestSuites late_runner (initial 0)))) = [True, False] \<and>
   sends (trace (state_of (runTestSuites late_runner (initial 0)))) =
     [Fragment (''suite: a  '' @ success_glyph) True,
      Fragment (''suite: a  '' @ failure_glyph @ [CHR 0x0A] @ ''   not connected'') False]"
  by (simp add: late_runner_def late_reporter_def example_defs eval_defs)




text \<open>
  C9. The calls of \<open>runTest\<close> to the component, the hook and the test body come in
  the order \<open>clearAsync\<close>, \<open>beforeEach\<close> (where the suite has one), \<open>reRender\<close>,
  \<open>f\<close>; the hook and the body are called on the suite. \<open>clearAsync\<close> and the hook
  are awaited: when one of them throws or rejects, or when \<open>reRender\<close> throws,
  \<open>runTest\<close> makes no further call, records nothing and raises. Otherwise each step
  has worked on the world the step before has left, the body is applied to the suite in
  the world left by \<open>reRender\<close>, and it is awaited: when it returns, a passed result
  for the case is recorded first; when it throws or rejects, nothing passed is recorded;
  and its effect on the world is the last one, unless a realtime reporter is sent the
  result.
\<close>

theorem runTest_lifecycle_order:
  "(\<exists>tr. lifecycle (trace (state_of (runTest R scope test s))) = lifecycle (trace s) @ tr \<and>
        prefix tr (expected_lifecycle scope test) \<and>
        (\<not> is_Raised (before_try R scope (snd (new_Date R s))) \<longrightarrow>
           tr = expected_lifecycle scope test) \<and>
        (is_Raised (before_try R scope (snd (new_Date R s))) \<longrightarrow>
           calls (trace (state_of (runTest R scope test s))) = calls (trace s)) \<and>
        (fst (clearAsync (component R) (world s)) \<noteq> Returns \<longrightarrow> tr = [ClearAsync]) \<and>
        (\<forall>hook. fst (clearAsync (component R) (world s)) = Returns \<and>
           beforeEach scope = Some hook \<and>
           fst (hook (self scope) (snd (clearAsync (component R) (world s)))) \<noteq> Returns \<longrightarrow>
           tr = [ClearAsync, BeforeEach (self scope)])) \<and>
   is_Raised (before_try R scope (snd (new_Date R s))) = (\<not> steps_complete R scope (world s)) \<and>
   (\<not> steps_complete R scope (world s) \<longrightarrow>
      is_Raised (runTest R scope test s) \<and>
      results (state_of (runTest R scope test s)) = results s) \<and>
   (steps_complete R scope (world s) \<longrightarrow>
      (fst (tc_f test (self scope) (world_before_body R scope (world s))) = Returns \<longrightarrow>
         (\<exists>r rest. results (state_of (runTest R scope test s)) = results s @ r # rest \<and>
            passed r \<and> description r = describe test)) \<and>
      (fst (tc_f test (self scope) (world_before_body R scope (world s))) \<noteq> Returns \<longrightarrow>
         results (state_of (runTest R scope test s)) = results s \<or>
         (\<exists>r. results (state_of (runTest R scope test s)) = results s @ [r] \<and> \<not> passed r)) \<and>
      (\<not> is_realtime R \<longrightarrow>
         world (state_of (runTest R scope test s)) =
           snd (tc_f test (self scope) (world_before_body R scope (world s)))))"
proof -
  have w: "world (snd (new_Date R s)) = world s"
    by (simp add: new_Date_def)
  have c: "is_Raised (before_try R scope (snd (new_Date R s))) =
      (\<not> steps_complete R scope (world s))"
    using before_try_complete[of R scope "snd (new_Date R s)"] w by simp
  have i: "\<not> steps_complete R scope (world s) \<longrightarrow>
      is_Raised (runTest R scope test s) \<and>
      results (state_of (runTest R scope test s)) = results s"
    using runTest_steps_incomplete[of R scope s test] by blast
  have b: "steps_complete R scope (world s) \<longrightarrow>
      (fst (tc_f test (self scope) (world_before_body R scope (world s))) = Returns \<longrightarrow>
         (\<exists>r rest. results (state_of (runTest R scope test s)) = results s @ r # rest \<and>
            passed r \<and> description r = describe test)) \<and>
      (fst (tc_f test (self scope) (world_before_body R scope (world s))) \<noteq> Returns \<longrightarrow>
         results (state_of (runTest R scope test s)) = results s \<or>
         (\<exists>r. results (state_of (runTest R scope test s)) = results s @ [r] \<and> \<not> passed r)) \<and>
      (\<not> is_realtime R \<longrightarrow>
         world (state_of (runTest R scope test s)) =
           snd (tc_f test (self scope) (world_before_body R scope (world s))))"
    using runTest_body_returns[of R scope s test] runTest_body_fails[of R scope s test]
      runTest_body_world[of R scope s test]
    by (intro impI conjI) blast+
  show ?thesis
    by (rule conjI[OF runTest_lifecycle_events conjI[OF c conjI[OF i b]]])
qed


theorem runTest_lifecycle_order_witness:
  "\<not> is_Raised (before_try callback_runner hook_suite (snd (new_Date callback_runner (initial ())))) \<and>
   lifecycle (trace (state_of (runTest callback_runner hook_suite (passing_case ''a'' None) (initial ())))) =
     [ClearAsync, BeforeEach 7, ReRender, CallF 7 (passing_case ''a'' None)] \<and>
   fst (clearAsync (component failing_reset_runner) (world (initial ()))) \<noteq> Returns \<and>
   lifecycle (trace (state_of (runTest failing_reset_runner
       \<lparr>self = 0, testCases = [], beforeEach = None\<rparr> (passing_case ''a'' None) (initial ())))) =
     [ClearAsync] \<and>
   fst (clearAsync (component broken_hook_runner) (world (initial ()))) = Returns \<and>
   lifecycle (trace (state_of (runTest broken_hook_runner broken_hook_suite
       (passing_case ''a'' None) (initial ())))) = [ClearAsync, BeforeEach 0] \<and>
   is_Raised (before_try broken_hook_runner broken_hook_suite
       (snd (new_Date broken_hook_runner (initial ())))) \<and>
   calls (trace (state_of (runTest broken_hook_runner broken_hook_suite
       (passing_case ''a'' None) (initial ())))) = [] \<and>
   \<not> steps_complete broken_hook_runner broken_hook_suite (world (initial ())) \<and>
   is_Raised (runTest broken_hook_runner broken_hook_suite (passing_case ''a'' None) (initial ())) \<and>
   results (state_of (runTest broken_hook_runner broken_hook_suite
       (passing_case ''a'' None) (initial ()))) = [] \<and>
   steps_complete logging_runner logging_suite (world (initial [])) \<and>
   world_before_body logging_runner logging_suite (world (initial [])) = [1, 2, 7, 3] \<and>
   fst (tc_f logging_case (self logging_suite) [1, 2, 7, 3]) = Returns \<and>
   \<not> is_realtime logging_runner \<and>
   world (state_of (runTest logging_runner logging_suite logging_case (initial []))) =
     [1, 2, 7, 3, 4, 7] \<and>
   map passed (results (state_of (runTest logging_runner logging_suite logging_case (initial [])))) =
     [True] \<and>
   steps_complete logging_runner logging_suite (world (initial [9])) \<and>
   fst (tc_f logging_case (self logging_suite)
     (world_before_body logging_runner logging_suite (world (initial [9])))) \<noteq> Returns \<and>
   map passed (results (state_of (runTest logging_runner logging_suite logging_case (initial [9])))) =
     [False]"
proof -
  have h: "\<not> is_Raised (before_try callback_runner hook_suite (snd (new_Date callback_runner (initial ()))))"
    by (simp add: callback_runner_def hook_suite_def example_defs eval_defs)
  have e: "expected_lifecycle hook_suite (passing_case ''a'' None) =
      [ClearAsync, BeforeEach 7, ReRender, CallF 7 (passing_case ''a'' None :: unit test_case)]"
    by (simp add: expected_lifecycle_def hook_suite_def)
  have i: "lifecycle (trace (initial ())) = ([] :: unit event list)"
     "calls (trace (initial ())) = ([] :: (ref \<times> unit test_case) list)"
     "results (initial ()) = []"
    by (simp_all add: initial_def)
  have c: "fst (clearAsync (component failing_reset_runner) (world (initial ()))) \<noteq> Returns"
    by (simp add: failing_reset_runner_def example_defs)
  have k: "fst (clearAsync (component broken_hook_runner) (world (initial ()))) = Returns"
    "beforeEach broken_hook_suite = Some (\<lambda>r w. (Throws (JSError ''Error'' ''setup failed''), w))"
    "fst ((\<lambda>r w. (Throws (JSError ''Error'' ''setup failed''), w)) (self broken_hook_suite)
        (snd (clearAsync (component broken_hook_runner) (world (initial ()))))) \<noteq> Returns"
    by (simp_all add: broken_hook_runner_def broken_hook_suite_def example_defs)
  have r: "is_Raised (before_try broken_hook_runner broken_hook_suite
       (snd (new_Date broken_hook_runner (initial ()))))"
    by (simp add: broken_hook_runner_def broken_hook_suite_def example_defs eval_defs)
  have s: "self broken_hook_suite = 0"
    by (simp add: broken_hook_suite_def)
  have n: "\<not> steps_complete broken_hook_runner broken_hook_suite (world (initial ()))"
    by (simp add: steps_complete_def world_after_reset_def broken_hook_runner_def
        broken_hook_suite_def example_defs)
  have l: "steps_complete logging_runner logging_suite (world (initial []))"
    "steps_complete logging_runner logging_suite (world (initial [9]))"
    "world_before_body logging_runner logging_suite (world (initial [])) = [1, 2, 7, 3]"
    "world_before_body logging_runner logging_suite (world (initial [9])) = [9, 1, 2, 7, 3]"
    "self logging_suite = 7"
    "\<not> is_realtime logging_runner"
    by (simp_all add: steps_complete_def world_before_body_def world_after_hook_def
        world_after_reset_def logging_runner_def logging_suite_def is_realtime_def
        example_defs initial_def)
  have b: "fst (tc_f logging_case 7 [1, 2, 7, 3]) = Returns"
    "fst (tc_f logging_case 7 [9, 1, 2, 7, 3]) \<noteq> Returns"
    "snd (tc_f logging_case 7 [1, 2, 7, 3]) = [1, 2, 7, 3, 4, 7]"
    by (simp_all add: logging_case_def)
  have p: "map passed (results (state_of (runTest logging_runner logging_suite logging_case (initial [])))) =
     [True]"
    "map passed (results (state_of (runTest logging_runner logging_suite logging_case (initial [9])))) =
     [False]"
    by (simp_all add: logging_runner_def logging_suite_def logging_case_def example_defs eval_defs)
  from runTest_lifecycle_order[of callback_runner hook_suite "passing_case ''a'' None" "initial ()"]
  have 1: "lifecycle (trace (state_of (runTest callback_runner hook_suite (passing_case ''a'' None) (initial ())))) =
     [ClearAsync, BeforeEach 7, ReRender, CallF 7 (passing_case ''a'' None)]"
    using h e i by auto
  from runTest_lifecycle_order[of failing_reset_runner "\<lparr>self = 0, testCases = [], beforeEach = None\<rparr>"
      "passing_case ''a'' None" "initial ()"]
  have 2: "lifecycle (trace (state_of (runTest failing_reset_runner
       \<lparr>self = 0, testCases = [], beforeEach = None\<rparr> (passing_case ''a'' None) (initial ())))) =
     [ClearAsync]"
    using c i by auto
  from runTest_lifecycle_order[of broken_hook_runner broken_hook_suite "passing_case ''a'' None" "initial ()"]
  have 3: "lifecycle (trace (state_of (runTest broken_hook_runner broken_hook_suite
       (passing_case ''a'' None) (initial ())))) = [ClearAsync, BeforeEach 0]"
    "calls (trace (state_of (runTest broken_hook_runner broken_hook_suite
       (passing_case ''a'' None) (initial ())))) = []"
    "is_Raised (runTest broken_hook_runner broken_hook_suite (passing_case ''a'' None) (initial ()))"
    "results (state_of (runTest broken_hook_runner broken_hook_suite
       (passing_case ''a'' None) (initial ()))) = []"
    using k r i s n by auto
  from runTest_lifecycle_order[of logging_runner logging_suite logging_case "initial []"]
  have 4: "world (state_of (runTest logging_runner logging_suite logging_case (initial []))) =
     [1, 2, 7, 3, 4, 7]"
    using l b by simp
  show ?thesis
    using h c k(1) r n l b p 1 2 3 4 by simp
qed

text \<open>
  C10. When the reporter is \<open>null\<close> or \<open>undefined\<close>, the check after a case and the
  dispatch at the end both read its \<open>type\<close> and raise: \<open>runTest\<close> never completes
  normally, and a run raises an error as soon as one case is executed (and also when
  it reaches the dispatch, that is unless \<open>sendReport\<close> was \<open>false\<close>).
\<close>

theorem nullish_reporter_raises:
  assumes "reporter R = RNullish"
  shows "is_Raised (realtime_send R msg ok s) \<and> is_Raised (dispatch R rep s) \<and>
         is_Raised (runTest R scope test s) \<and>
         (selected R \<noteq> [] \<or> shouldSendReport R \<noteq> Some False \<longrightarrow>
            is_Raised (runTestSuites R s))"
proof -
  let ?s2 = "s\<lparr>ticks := Suc (ticks s),
           trace := trace s @
             [ConsoleLog (''Cavy test suite started at '' @ date_string R (clock R (ticks s)) @ ''.'')]\<rparr>"
  have "is_Raised (runTestSuites R s)" if "selected R \<noteq> []"
    using run_list_nullish[OF assms that, of ?s2]
    by (cases "run_list R (selected R) ?s2") (simp_all add: runTestSuites_unfold)
  moreover have "is_Raised (runTestSuites R s)" if "shouldSendReport R \<noteq> Some False"
    using after_loop_nullish[OF assms that]
    by (cases "run_list R (selected R) ?s2") (simp_all add: runTestSuites_unfold)
  ultimately show ?thesis
    using assms realtime_send_nullish dispatch_nullish runTest_nullish by blast
qed

theorem nullish_reporter_raises_witness:
  "reporter nullish_runner = RNullish \<and> selected nullish_runner \<noteq> [] \<and>
   is_Raised (runTestSuites nullish_runner (initial ()))"
proof -
  have r: "reporter nullish_runner = RNullish"
    by (simp add: nullish_runner_def example_defs)
  have "selected nullish_runner \<noteq> []"
    by (simp add: nullish_runner_def example_defs selected_def selected_cases_def should_run_def)
  then show ?thesis
    using r nullish_reporter_raises[OF r, of undefined undefined "initial ()"] by simp
qed

end
